theory Spec2Isabelle
  imports Main "HOL-Library.Word" "HOL-Library.AList"
begin

unbundle bit_operations_syntax

section \<open>The proxy controller of dask-gateway\<close>

text \<open>
  The module \<^verbatim>\<open>dask_gateway/proxy/core.py\<close> defines one class, \<^verbatim>\<open>Proxy\<close>. It starts and
  stops the routing engine (the executable \<^verbatim>\<open>configurable-tls-proxy\<close>) and talks to the
  engine's management API over HTTP. Everything the class does beyond computing strings
  is an effect on the outside world: reading the process environment, writing a log
  record, launching or signalling a child process, sending an HTTP request. The model
  threads a \<open>world\<close> through every method; the world records the effects in order, and
  the behaviour of the operating system and of whatever answers on the network is a
  parameter (\<open>platform\<close>).
\<close>

subsection \<open>Values on the wire\<close>

text \<open>
  JSON documents are kept as trees. A body is either the text of a JSON document
  (\<open>JsonText\<close>, what \<^verbatim>\<open>json.dumps\<close> writes and \<^verbatim>\<open>json.loads\<close> reads back) or text that
  is not JSON (\<open>RawText\<close>, on which \<^verbatim>\<open>json.loads\<close> raises). An object is the list of its
  members in document order; a document may repeat a key. A \<open>string\<close> stands for a
  Python \<^verbatim>\<open>str\<close>.
\<close>

datatype json =
    JNull
  | JBool bool
  | JNum int
  | JStr string
  | JArr "json list"
  | JObj "(string \<times> json) list"

datatype payload = JsonText json | RawText string

datatype http_method = GET | PUT | DELETE

record HTTPRequest =
  url :: string
  http_method :: http_method
  headers :: "(string \<times> string) list"
  body :: "payload option"

text \<open>
  The body of a response is a byte string. The module reads it in one way only,
  \<^verbatim>\<open>resp.body.decode('utf8', 'replace')\<close>, which gives a text for every byte string and
  never raises. A byte string is therefore kept by the text that this decoding gives:
  \<open>Utf8 t\<close> is the UTF-8 encoding of the text \<open>t\<close>, and \<open>Malformed t\<close> is a byte string
  that is not well-formed UTF-8 and that the decoding, putting replacement characters
  for the offending bytes, turns into the text \<open>t\<close>.
\<close>

datatype bytes = Utf8 payload | Malformed payload

fun decode_utf8_replace :: "bytes \<Rightarrow> payload" where
  "decode_utf8_replace (Utf8 t) = t"
| "decode_utf8_replace (Malformed t) = t"

record HTTPResponse =
  code :: nat
  response_headers :: "(string \<times> string) list"
  response_body :: bytes

text \<open>
  Two shapes of responses, both without headers: a status with a plain text that is not
  JSON, as a server sends to refuse a request, and the empty success \<^verbatim>\<open>204 No Content\<close>.
\<close>

definition reject :: "nat \<Rightarrow> string \<Rightarrow> HTTPResponse" where
  "reject c why = \<lparr>code = c, response_headers = [], response_body = Utf8 (RawText why)\<rparr>"

definition no_content :: HTTPResponse where
  "no_content = \<lparr>code = 204, response_headers = [], response_body = Utf8 (RawText '''')\<rparr>"

datatype error =
    AttributeError string
  | ValueError string
  | OSError string
  | ConnectionError string
  | HTTPError nat HTTPResponse
  | JSONDecodeError string

subsection \<open>Processes, log records and the world\<close>

datatype stdio = PIPE | Inherit

record popen_args =
  args :: "string list"
  env :: "string \<rightharpoonup> string"
  stdin :: stdio
  stdout :: stdio
  stderr :: stdio
  start_new_session :: bool

datatype py_log_level = LogDebug | LogInfo

text \<open>
  The effects a \<^verbatim>\<open>Proxy\<close> performs: a call of the logger, a call of \<^verbatim>\<open>subprocess.Popen\<close>
  with its arguments (recorded whether or not the launch succeeds), a request handed to
  the HTTP client (\<open>Sent\<close>), a further request that the HTTP client sends by itself when
  it follows a redirect (\<open>Followed\<close>), and a termination signal to a process handle.
\<close>

datatype event =
    Logged py_log_level string
  | Spawned popen_args
  | Sent HTTPRequest
  | Followed HTTPRequest
  | Terminated nat

record 'r world =
  environ :: "string \<rightharpoonup> string"
  remote :: 'r
  events :: "event list"

text \<open>
  The platform: where the executable is installed (\<^verbatim>\<open>_PROXY_EXE\<close>), what
  \<^verbatim>\<open>subprocess.Popen\<close> and \<^verbatim>\<open>Popen.terminate\<close> do to the outside, and what comes back
  for one HTTP request on the wire (a connection failure or a response). Three functions
  of the libraries are taken as given:
  \<^item> \<open>redirect\<close>: the request by which the HTTP client follows a redirect, built from the
    request just answered and the answer (the address is the \<^verbatim>\<open>Location\<close> joined to the
    present address; for some statuses the client changes the method and drops the body);
  \<^item> \<open>check_bracketed_host\<close>: the check that \<^verbatim>\<open>urlsplit\<close> makes of a host in square
    brackets (an IPv6 or IPvFuture address), giving the message of the \<^verbatim>\<open>ValueError\<close>
    when it fails;
  \<^item> \<open>checknetloc\<close>: the check that \<^verbatim>\<open>urlsplit\<close> makes of a network location with
    non-ASCII characters (normalisation must not bring in a delimiter), likewise.
\<close>

record 'r platform =
  proxy_exe :: string
  popen :: "popen_args \<Rightarrow> 'r \<Rightarrow> (error + nat) \<times> 'r"
  terminate :: "nat \<Rightarrow> 'r \<Rightarrow> 'r"
  serve :: "HTTPRequest \<Rightarrow> 'r \<Rightarrow> (error + HTTPResponse) \<times> 'r"
  redirect :: "HTTPRequest \<Rightarrow> HTTPResponse \<Rightarrow> HTTPRequest"
  check_bracketed_host :: "string \<Rightarrow> string option"
  checknetloc :: "string \<Rightarrow> string option"

definition emit :: "event \<Rightarrow> 'r world \<Rightarrow> 'r world" where
  "emit e w = w\<lparr>events := events w @ [e]\<rparr>"

subsection \<open>The configuration of a \<^verbatim>\<open>Proxy\<close>\<close>

datatype log_level = Level_error | Level_warn | Level_info | Level_debug

fun level_name :: "log_level \<Rightarrow> string" where
  "level_name Level_error = ''error''"
| "level_name Level_warn = ''warn''"
| "level_name Level_info = ''info''"
| "level_name Level_debug = ''debug''"

text \<open>
  \<open>proxy_process\<close> is no trait: the attribute exists only once \<^verbatim>\<open>start\<close> has assigned
  it, so it is optional here.
\<close>

record proxy =
  log_level :: log_level
  public_url :: string
  api_url :: string
  auth_token :: string
  proxy_process :: "nat option"

subsection \<open>\<^verbatim>\<open>uuid.uuid4().hex\<close>\<close>

text \<open>
  \<^verbatim>\<open>uuid4\<close> draws sixteen bytes from the operating system and builds a version-4 UUID
  from them: the two variant bits are set to \<open>10\<close> and the four version bits to
  \<open>0100\<close>. \<^verbatim>\<open>hex\<close> is \<^verbatim>\<open>'%032x' % int\<close>. The draw is an argument.
\<close>

definition uuid4 :: "128 word \<Rightarrow> 128 word" where
  "uuid4 r =
     (((r AND NOT (push_bit 48 0xc000)) OR push_bit 48 0x8000)
        AND NOT (push_bit 64 0xf000)) OR push_bit 76 4"

definition hexdigit :: "nat \<Rightarrow> char" where
  "hexdigit d = ''0123456789abcdef'' ! (d mod 16)"

fun hex_fixed :: "nat \<Rightarrow> nat \<Rightarrow> string" where
  "hex_fixed 0 n = []"
| "hex_fixed (Suc k) n = hex_fixed k (n div 16) @ [hexdigit (n mod 16)]"

definition uuid4_hex :: "128 word \<Rightarrow> string" where
  "uuid4_hex r = hex_fixed 32 (unat (uuid4 r))"

text \<open>
  The part of the draw on which \<open>uuid4\<close> does not write: the draw with the two variant
  bits (62 and 63) and the four version bits (76 to 79) cleared, by the same two masks.
\<close>

definition drawn_bits :: "128 word \<Rightarrow> 128 word" where
  "drawn_bits r = r AND NOT (push_bit 48 0xc000) AND NOT (push_bit 64 0xf000)"

subsection \<open>Token resolution\<close>

text \<open>
  \<^verbatim>\<open>
  token = os.environ.get('CONFIG_TLS_PROXY_TOKEN', '')
  if not token:
      self.log.info("Generating new CONFIG_TLS_PROXY_TOKEN")
      token = uuid.uuid4().hex
  return token
  \<close>
\<close>

definition auth_token_default :: "128 word \<Rightarrow> 'r world \<Rightarrow> string \<times> 'r world" where
  "auth_token_default r w =
     (let token = (case environ w ''CONFIG_TLS_PROXY_TOKEN'' of None \<Rightarrow> '''' | Some t \<Rightarrow> t)
      in if token = ''''
         then (uuid4_hex r, emit (Logged LogInfo ''Generating new CONFIG_TLS_PROXY_TOKEN'') w)
         else (token, w))"

subsection \<open>\<^verbatim>\<open>urllib.parse\<close>: splitting a URL\<close>

text \<open>
  \<^verbatim>\<open>start\<close> reads \<^verbatim>\<open>urlparse(url).netloc\<close>; \<^verbatim>\<open>urlparse\<close> is \<^verbatim>\<open>urlsplit\<close> followed by the
  splitting of parameters off the path, which leaves the network location as it is.
  \<^verbatim>\<open>urlsplit\<close>, as the standard library has it today (Python 3.11):
  \<^verbatim>\<open>
  url = url.lstrip(_WHATWG_C0_CONTROL_OR_SPACE)
  for b in _UNSAFE_URL_BYTES_TO_REMOVE:
      url = url.replace(b, "")
  netloc = query = fragment = ''
  i = url.find(':')
  if i > 0 and url[0].isascii() and url[0].isalpha():
      for c in url[:i]:
          if c not in scheme_chars:
              break
      else:
          scheme, url = url[:i].lower(), url[i+1:]
  if url[:2] == '//':
      netloc, url = _splitnetloc(url, 2)
      if (('[' in netloc and ']' not in netloc) or
              (']' in netloc and '[' not in netloc)):
          raise ValueError("Invalid IPv6 URL")
      if '[' in netloc and ']' in netloc:
          bracketed_host = netloc.partition('[')[2].partition(']')[0]
          _check_bracketed_host(bracketed_host)
  if allow_fragments and '#' in url:
      url, fragment = url.split('#', 1)
  if '?' in url:
      url, query = url.split('?', 1)
  _checknetloc(netloc)
  return SplitResult(scheme, netloc, url, query, fragment)
  \<close>
  The characters stripped in front are the control characters and the space (codes 0 to
  32); the characters removed everywhere are tab, line feed and carriage return (codes
  9, 10 and 13). \<^verbatim>\<open>_splitnetloc\<close> cuts at the first of \<^verbatim>\<open>/\<close>, \<^verbatim>\<open>?\<close>, \<^verbatim>\<open>#\<close>. \<^verbatim>\<open>_checknetloc\<close>
  returns at once on an empty or all-ASCII network location. The two checks that need
  the address and the Unicode libraries are functions of the platform.
\<close>

definition scheme_chars :: string where
  "scheme_chars = ''abcdefghijklmnopqrstuvwxyzABCDEFGHIJKLMNOPQRSTUVWXYZ0123456789+-.''"

definition lower :: "char \<Rightarrow> char" where
  "lower c = (let n = (of_char c :: nat) in if 65 \<le> n \<and> n \<le> 90 then char_of (n + 32) else c)"

definition c0_control_or_space :: "char \<Rightarrow> bool" where
  "c0_control_or_space c \<longleftrightarrow> (of_char c :: nat) \<le> 32"

definition unsafe_url_byte :: "char \<Rightarrow> bool" where
  "unsafe_url_byte c \<longleftrightarrow> (of_char c :: nat) = 9 \<or> (of_char c :: nat) = 10 \<or> (of_char c :: nat) = 13"

definition ascii_letter :: "char \<Rightarrow> bool" where
  "ascii_letter c \<longleftrightarrow>
     (let n = (of_char c :: nat) in (65 \<le> n \<and> n \<le> 90) \<or> (97 \<le> n \<and> n \<le> 122))"

definition isascii :: "string \<Rightarrow> bool" where
  "isascii s \<longleftrightarrow> list_all (\<lambda>c. (of_char c :: nat) < 128) s"

definition split_once :: "char \<Rightarrow> string \<Rightarrow> string \<times> string" where
  "split_once d s = (takeWhile (\<lambda>c. c \<noteq> d) s, drop 1 (dropWhile (\<lambda>c. c \<noteq> d) s))"

definition splitnetloc :: "string \<Rightarrow> string \<times> string" where
  "splitnetloc s =
     (takeWhile (\<lambda>c. c \<notin> set ''/?#'') s, dropWhile (\<lambda>c. c \<notin> set ''/?#'') s)"

record SplitResult =
  scheme :: string
  netloc :: string
  path :: string
  query :: string
  fragment :: string

definition split_scheme :: "string \<Rightarrow> string \<times> string" where
  "split_scheme u =
     (let pre = takeWhile (\<lambda>c. c \<noteq> CHR '':'') u;
          post = dropWhile (\<lambda>c. c \<noteq> CHR '':'') u
      in if post \<noteq> [] \<and> pre \<noteq> [] \<and> ascii_letter (hd pre)
            \<and> list_all (\<lambda>c. c \<in> set scheme_chars) pre
         then (map lower pre, tl post)
         else ('''', u))"

definition bracketed_host :: "string \<Rightarrow> string" where
  "bracketed_host nl =
     takeWhile (\<lambda>c. c \<noteq> CHR '']'') (drop 1 (dropWhile (\<lambda>c. c \<noteq> CHR ''['') nl))"

definition urlsplit :: "'r platform \<Rightarrow> string \<Rightarrow> error + SplitResult" where
  "urlsplit pf u =
     (let u0 = filter (\<lambda>c. \<not> unsafe_url_byte c) (dropWhile c0_control_or_space u);
          (sch, u1) = split_scheme u0;
          (nl, u2) = (if take 2 u1 = ''//'' then splitnetloc (drop 2 u1) else ('''', u1));
          (u3, frag) = split_once CHR ''#'' u2;
          (u4, q) = split_once CHR ''?'' u3
      in if (CHR ''['' \<in> set nl \<and> CHR '']'' \<notin> set nl)
            \<or> (CHR '']'' \<in> set nl \<and> CHR ''['' \<notin> set nl)
         then Inl (ValueError ''Invalid IPv6 URL'')
         else case (if CHR ''['' \<in> set nl \<and> CHR '']'' \<in> set nl
                    then check_bracketed_host pf (bracketed_host nl) else None) of
                Some msg \<Rightarrow> Inl (ValueError msg)
              | None \<Rightarrow>
                 (case (if nl = [] \<or> isascii nl then None else checknetloc pf nl) of
                    Some msg \<Rightarrow> Inl (ValueError msg)
                  | None \<Rightarrow>
                     Inr \<lparr>scheme = sch, netloc = nl, path = u4, query = q, fragment = frag\<rparr>))"

subsection \<open>Starting and stopping the engine\<close>

text \<open>
  \<^verbatim>\<open>
  address = urlparse(self.public_url).netloc
  api_address = urlparse(self.api_url).netloc
  command = [_PROXY_EXE, '-address', address, '-api-address', api_address,
             '-log-level', self.log_level, '-is-child-process']
  env = os.environ.copy()
  env['CONFIG_TLS_PROXY_TOKEN'] = self.auth_token
  self.log.info("Starting the Dask Gateway Proxy...")
  proc = subprocess.Popen(command, env=env, stdin=subprocess.PIPE,
                          stdout=None, stderr=None, start_new_session=True)
  self.proxy_process = proc
  \<close>
  \<^verbatim>\<open>stdout=None\<close> and \<^verbatim>\<open>stderr=None\<close> leave the child on the parent's streams
  (\<open>Inherit\<close>). An exception of \<^verbatim>\<open>urlparse\<close> or \<^verbatim>\<open>Popen\<close> leaves the method before the
  assignment to \<^verbatim>\<open>proxy_process\<close>.
\<close>

definition start :: "'r platform \<Rightarrow> proxy \<Rightarrow> 'r world \<Rightarrow> (error + proxy) \<times> 'r world" where
  "start pf p w =
     (case urlsplit pf (public_url p) of
        Inl e \<Rightarrow> (Inl e, w)
      | Inr pu \<Rightarrow>
         (case urlsplit pf (api_url p) of
            Inl e \<Rightarrow> (Inl e, w)
          | Inr au \<Rightarrow>
             (let command = [proxy_exe pf,
                             ''-address'', netloc pu,
                             ''-api-address'', netloc au,
                             ''-log-level'', level_name (log_level p),
                             ''-is-child-process''];
                  env' = (environ w)(''CONFIG_TLS_PROXY_TOKEN'' \<mapsto> auth_token p);
                  w1 = emit (Logged LogInfo ''Starting the Dask Gateway Proxy...'') w;
                  call = \<lparr>args = command, env = env', stdin = PIPE, stdout = Inherit,
                          stderr = Inherit, start_new_session = True\<rparr>;
                  (res, r') = popen pf call (remote w1);
                  w2 = emit (Spawned call) (w1\<lparr>remote := r'\<rparr>)
              in case res of
                   Inl e \<Rightarrow> (Inl e, w2)
                 | Inr proc \<Rightarrow> (Inr (p\<lparr>proxy_process := Some proc\<rparr>), w2))))"

text \<open>
  \<^verbatim>\<open>self.proxy_process.terminate()\<close>: reading the attribute of an object that never
  got it raises \<^verbatim>\<open>AttributeError\<close>.
\<close>

definition stop :: "'r platform \<Rightarrow> proxy \<Rightarrow> 'r world \<Rightarrow> (error + unit) \<times> 'r world" where
  "stop pf p w =
     (case proxy_process p of
        None \<Rightarrow> (Inl (AttributeError ''proxy_process''), w)
      | Some proc \<Rightarrow>
          (Inr (), emit (Terminated proc) (w\<lparr>remote := terminate pf proc (remote w)\<rparr>)))"

subsection \<open>Requests to the management API\<close>

text \<open>
  \<^verbatim>\<open>AsyncHTTPClient.fetch\<close> sends the request and returns the response. The module builds
  its \<^verbatim>\<open>HTTPRequest\<close> with the defaults of the library, \<^verbatim>\<open>follow_redirects=True\<close> and
  \<^verbatim>\<open>max_redirects=5\<close>: an answer with status 301, 302, 303, 307 or 308 that carries a
  \<^verbatim>\<open>Location\<close> header is not handed back but followed by a further request, as long as
  redirects are left (each follow-up is made with one redirect fewer). The headers of a
  response are kept under the names to which the library normalises them.
\<close>

definition redirection :: "HTTPResponse \<Rightarrow> bool" where
  "redirection resp \<longleftrightarrow>
     code resp \<in> set [301, 302, 303, 307, 308]
     \<and> map_of (response_headers resp) ''Location'' \<noteq> None"

text \<open>
  One request on the wire and what follows from its answer, with \<open>n\<close> redirects left:
  the answer at which the exchange ends (a connection failure or a response), the
  follow-up requests that went out, and the state in which the outside is left.
\<close>

fun transfer ::
  "nat \<Rightarrow> 'r platform \<Rightarrow> HTTPRequest \<Rightarrow> 'r
     \<Rightarrow> (error + HTTPResponse) \<times> HTTPRequest list \<times> 'r" where
  "transfer 0 pf req r = (let (ans, r') = serve pf req r in (ans, [], r'))"
| "transfer (Suc n) pf req r =
     (let (ans, r') = serve pf req r
      in case ans of
           Inl e \<Rightarrow> (Inl e, [], r')
         | Inr resp \<Rightarrow>
             if redirection resp
             then (let req' = redirect pf req resp;
                       (ans', more, r'') = transfer n pf req' r'
                   in (ans', req' # more, r''))
             else (Inr resp, [], r'))"

definition max_redirects :: nat where
  "max_redirects = 5"

text \<open>
  \<^verbatim>\<open>fetch\<close> is called with its default \<^verbatim>\<open>raise_error=True\<close>: a connection failure is
  raised as it is; the response at which the exchange ends is returned when its status
  is in 200..299 and is raised otherwise, as an \<^verbatim>\<open>HTTPError\<close> that carries the status
  and the response.
\<close>

definition settle :: "HTTPResponse \<Rightarrow> error + HTTPResponse" where
  "settle resp =
     (if 200 \<le> code resp \<and> code resp < 300 then Inr resp
      else Inl (HTTPError (code resp) resp))"

definition fetch :: "'r platform \<Rightarrow> HTTPRequest \<Rightarrow> 'r world \<Rightarrow> (error + HTTPResponse) \<times> 'r world" where
  "fetch pf req w =
     (let (ans, followed, r') = transfer max_redirects pf req (remote w);
          w' = w\<lparr>remote := r', events := events w @ Sent req # map Followed followed\<rparr>
      in (case ans of Inl e \<Rightarrow> Inl e | Inr resp \<Rightarrow> settle resp, w'))"

definition json_dumps :: "json \<Rightarrow> payload" where
  "json_dumps j = JsonText j"

text \<open>
  \<^verbatim>\<open>json.loads\<close> builds a \<^verbatim>\<open>dict\<close> from an object: a key that the document repeats
  keeps the place of its first occurrence and the value of its last.
\<close>

definition last_wins :: "(string \<times> 'a) list \<Rightarrow> (string \<times> 'a) list" where
  "last_wins kvs = fold (\<lambda>(k, v). AList.update k v) kvs []"

primrec loads_tree :: "json \<Rightarrow> json" where
  "loads_tree JNull = JNull"
| "loads_tree (JBool b) = JBool b"
| "loads_tree (JNum n) = JNum n"
| "loads_tree (JStr s) = JStr s"
| "loads_tree (JArr xs) = JArr (map loads_tree xs)"
| "loads_tree (JObj kvs) = JObj (last_wins (map (map_prod id loads_tree) kvs))"

fun json_loads :: "payload \<Rightarrow> error + json" where
  "json_loads (JsonText j) = Inr (loads_tree j)"
| "json_loads (RawText s) = Inl (JSONDecodeError s)"

datatype body_arg = NoBody | DictBody "(string \<times> json) list" | TextBody payload

text \<open>
  \<^verbatim>\<open>
  if isinstance(body, dict):
      body = json.dumps(body)
  req = HTTPRequest(url, method=method,
                    headers={'Authorization': 'token %s' % self.auth_token}, body=body)
  return await client.fetch(req)
  \<close>
\<close>

definition api_request ::
  "'r platform \<Rightarrow> proxy \<Rightarrow> string \<Rightarrow> http_method \<Rightarrow> body_arg \<Rightarrow> 'r world
     \<Rightarrow> (error + HTTPResponse) \<times> 'r world" where
  "api_request pf p u m b w =
     (let b' = (case b of
                  NoBody \<Rightarrow> None
                | DictBody d \<Rightarrow> Some (json_dumps (JObj d))
                | TextBody t \<Rightarrow> Some t);
          req = \<lparr>url = u, http_method = m,
                 headers = [(''Authorization'', ''token '' @ auth_token p)],
                 body = b'\<rparr>
      in fetch pf req w)"

text \<open>
  \<^verbatim>\<open>
  self.log.debug("Adding route %s -> %s", route, target)
  await self._api_request(url='%s/api/routes/%s' % (self.api_url, route),
                          method='PUT', body={'target': target})
  \<close>
\<close>

definition add_route ::
  "'r platform \<Rightarrow> proxy \<Rightarrow> string \<Rightarrow> string \<Rightarrow> 'r world \<Rightarrow> (error + unit) \<times> 'r world" where
  "add_route pf p route target w =
     (let w1 = emit (Logged LogDebug (''Adding route '' @ route @ '' -> '' @ target)) w;
          (res, w2) = api_request pf p (api_url p @ ''/api/routes/'' @ route) PUT
                        (DictBody [(''target'', JStr target)]) w1
      in case res of Inl e \<Rightarrow> (Inl e, w2) | Inr resp \<Rightarrow> (Inr (), w2))"

text \<open>
  \<^verbatim>\<open>
  self.log.debug("Removing route %s", route)
  await self._api_request(url='%s/api/routes/%s' % (self.api_url, route), method='DELETE')
  \<close>
\<close>

definition delete_route ::
  "'r platform \<Rightarrow> proxy \<Rightarrow> string \<Rightarrow> 'r world \<Rightarrow> (error + unit) \<times> 'r world" where
  "delete_route pf p route w =
     (let w1 = emit (Logged LogDebug (''Removing route '' @ route)) w;
          (res, w2) = api_request pf p (api_url p @ ''/api/routes/'' @ route) DELETE NoBody w1
      in case res of Inl e \<Rightarrow> (Inl e, w2) | Inr resp \<Rightarrow> (Inr (), w2))"

text \<open>
  \<^verbatim>\<open>
  resp = await self._api_request(url='%s/api/routes/' % self.api_url, method='GET')
  return json.loads(resp.body.decode('utf8', 'replace'))
  \<close>
  Decoding with \<^verbatim>\<open>'replace'\<close> never raises; what can raise is \<^verbatim>\<open>json.loads\<close>.
\<close>

definition get_all_routes ::
  "'r platform \<Rightarrow> proxy \<Rightarrow> 'r world \<Rightarrow> (error + json) \<times> 'r world" where
  "get_all_routes pf p w =
     (let (res, w1) = api_request pf p (api_url p @ ''/api/routes/'') GET NoBody w
      in case res of
           Inl e \<Rightarrow> (Inl e, w1)
         | Inr resp \<Rightarrow> (json_loads (decode_utf8_replace (response_body resp)), w1))"

subsection \<open>Plain library functions for concrete platforms\<close>

text \<open>
  The concrete platforms below (the engine of the specification and the fixtures) have
  the plainest instances of the three functions taken from the libraries: a redirect is
  followed by the same request (method, headers and body kept) at the address in
  \<^verbatim>\<open>Location\<close>, which is what the HTTP client does for an absolute address after a status
  307 or 308; and the two checks of hosts in brackets and of non-ASCII hosts refuse, so
  that an address with either raises on such a platform.
\<close>

definition follow_location :: "HTTPRequest \<Rightarrow> HTTPResponse \<Rightarrow> HTTPRequest" where
  "follow_location req resp =
     (case map_of (response_headers resp) ''Location'' of
        Some u \<Rightarrow> req\<lparr>url := u\<rparr>
      | None \<Rightarrow> req)"

definition refuse :: "string \<Rightarrow> string option" where
  "refuse host = Some ''host refused''"

section \<open>What the specification says about the wire and the engine\<close>

subsection \<open>Percent-encoding of a path segment\<close>

text \<open>
  Modelled from the spec: the percent-encoding of a path segment, which the module does
  not contain. The specification asks for the route to be sent as a percent-encoded
  path segment. The encoding written after its words: the unreserved characters of a
  URL (letters, digits, \<^verbatim>\<open>-\<close>, \<^verbatim>\<open>.\<close>, \<^verbatim>\<open>_\<close>, \<^verbatim>\<open>~\<close>) stand for themselves, every other
  byte becomes \<^verbatim>\<open>%\<close> and two hexadecimal digits. \<open>spec_route_url\<close> is the address the
  specification gives to a route; the code's address is the one in \<open>add_route\<close> and
  \<open>delete_route\<close>.
\<close>

definition unreserved :: string where
  "unreserved = ''abcdefghijklmnopqrstuvwxyzABCDEFGHIJKLMNOPQRSTUVWXYZ0123456789-._~''"

definition upper_hexdigit :: "nat \<Rightarrow> char" where
  "upper_hexdigit d = ''0123456789ABCDEF'' ! (d mod 16)"

definition percent_encode_char :: "char \<Rightarrow> string" where
  "percent_encode_char c =
     (if c \<in> set unreserved then [c]
      else [CHR ''%'', upper_hexdigit ((of_char c :: nat) div 16),
            upper_hexdigit ((of_char c :: nat) mod 16)])"

definition percent_encode :: "string \<Rightarrow> string" where
  "percent_encode s = concat (map percent_encode_char s)"

definition spec_route_url :: "proxy \<Rightarrow> string \<Rightarrow> string" where
  "spec_route_url p route = api_url p @ ''/api/routes/'' @ percent_encode route"

subsection \<open>The routing engine\<close>

text \<open>
  Modelled from the spec: the routing engine \<^verbatim>\<open>configurable-tls-proxy\<close>, whose program is
  not among the sources. The specification fixes its command line
  (\<^verbatim>\<open>-address\<close>, \<^verbatim>\<open>-api-address\<close>, \<^verbatim>\<open>-log-level\<close>, \<^verbatim>\<open>-is-child-process\<close>), the variable
  \<^verbatim>\<open>CONFIG_TLS_PROXY_TOKEN\<close> that carries the token, and its management API: every request
  carries \<^verbatim>\<open>Authorization: token <token>\<close>; \<^verbatim>\<open>PUT /api/routes/{route}\<close> with body
  \<^verbatim>\<open>{"target": ...}\<close> inserts or overwrites; \<^verbatim>\<open>DELETE /api/routes/{route}\<close> removes and
  answers success also when the key is absent; \<^verbatim>\<open>GET /api/routes/\<close> answers the whole
  table as one JSON object; \<^verbatim>\<open>{route}\<close> is a percent-encoded path segment; anything else is
  rejected with a status outside 200..299. The specification does not fix the status
  numbers; 200 and 204 stand for success here, 400, 403 and 404 for the rejections.
\<close>

record engine =
  address :: string
  api_address :: string
  verbosity :: string
  secret :: string
  table :: "(string \<times> string) list"

text \<open>Modelled from the spec: the value of a hexadecimal digit in a percent escape.\<close>

fun hexval :: "char \<Rightarrow> nat option" where
  "hexval c =
     (let n = (of_char c :: nat)
      in if 48 \<le> n \<and> n \<le> 57 then Some (n - 48)
         else if 65 \<le> n \<and> n \<le> 70 then Some (n - 55)
         else if 97 \<le> n \<and> n \<le> 102 then Some (n - 87)
         else None)"

text \<open>
  Modelled from the spec: reading a percent-encoded path segment. A slash ends a
  segment, so it cannot occur in one; a percent sign must be followed by two
  hexadecimal digits.
\<close>

fun percent_decode :: "string \<Rightarrow> string option" where
  "percent_decode [] = Some []"
| "percent_decode (c # h1 # h2 # cs) =
     (if c = CHR ''%'' then
        (case (hexval h1, hexval h2) of
           (Some a, Some b) \<Rightarrow> map_option ((#) (char_of (16 * a + b))) (percent_decode cs)
         | _ \<Rightarrow> None)
      else if c = CHR ''/'' then None
      else map_option ((#) c) (percent_decode (h1 # h2 # cs)))"
| "percent_decode (c # cs) =
     (if c = CHR ''%'' \<or> c = CHR ''/'' then None
      else map_option ((#) c) (percent_decode cs))"

text \<open>
  Modelled from the spec: the pieces of the management API. The endpoints live under
  \<^verbatim>\<open>/api/routes/\<close>; the table is answered as a JSON object from route to target, with
  every key once, since the table is a mapping; the body of a PUT is an object whose
  member \<^verbatim>\<open>target\<close> is a string; a rejection is a \<open>reject\<close> response whose text describes
  the reason; a success that has nothing to say is \<open>no_content\<close>.
\<close>

definition strip_prefix :: "string \<Rightarrow> string \<Rightarrow> string option" where
  "strip_prefix pre s = (if take (length pre) s = pre then Some (drop (length pre) s) else None)"

definition table_json :: "(string \<times> string) list \<Rightarrow> json" where
  "table_json t = JObj (map (\<lambda>(k, v). (k, JStr v)) (AList.clearjunk t))"

fun put_target :: "payload option \<Rightarrow> string option" where
  "put_target (Some (JsonText (JObj kvs))) =
     (case map_of kvs ''target'' of Some (JStr t) \<Rightarrow> Some t | _ \<Rightarrow> None)"
| "put_target _ = None"

text \<open>Modelled from the spec: the management API of the engine, one request at a time.\<close>

definition engine_handle :: "engine \<Rightarrow> HTTPRequest \<Rightarrow> string \<Rightarrow> HTTPResponse \<times> engine" where
  "engine_handle e req pth =
     (if map_of (headers req) ''Authorization'' \<noteq> Some (''token '' @ secret e)
      then (reject 403 ''token mismatch'', e)
      else case strip_prefix ''/api/routes/'' pth of
             None \<Rightarrow> (reject 404 ''no such endpoint'', e)
           | Some seg \<Rightarrow>
              (case http_method req of
                 GET \<Rightarrow>
                   if seg = []
                   then (\<lparr>code = 200, response_headers = [],
                          response_body = Utf8 (JsonText (table_json (table e)))\<rparr>, e)
                   else (reject 404 ''no such endpoint'', e)
               | PUT \<Rightarrow>
                   (case percent_decode seg of
                      None \<Rightarrow> (reject 400 ''bad route'', e)
                    | Some route \<Rightarrow>
                       (case put_target (body req) of
                          None \<Rightarrow> (reject 400 ''bad body'', e)
                        | Some t \<Rightarrow> (no_content, e\<lparr>table := AList.update route t (table e)\<rparr>)))
               | DELETE \<Rightarrow>
                   (case percent_decode seg of
                      None \<Rightarrow> (reject 400 ''bad route'', e)
                    | Some route \<Rightarrow> (no_content, e\<lparr>table := AList.delete route (table e)\<rparr>))))"

text \<open>
  Modelled from the spec: the network between the client and the engine. The address of
  a request names the server and the path: a scheme (letters, digits, \<^verbatim>\<open>+\<close>, \<^verbatim>\<open>-\<close>, \<^verbatim>\<open>.\<close>)
  up to the first colon, after two slashes the network location up to the first of \<^verbatim>\<open>/\<close>,
  \<^verbatim>\<open>?\<close>, \<^verbatim>\<open>#\<close>, and then path, query and fragment; an address whose network location has
  one square bracket without the other is refused as invalid. The request reaches the
  engine when an engine runs and listens on the network location named there, and is
  refused otherwise.
\<close>

definition leading_scheme :: "string \<Rightarrow> string \<times> string" where
  "leading_scheme u =
     (let pre = takeWhile (\<lambda>c. c \<noteq> CHR '':'') u;
          post = dropWhile (\<lambda>c. c \<noteq> CHR '':'') u
      in if post \<noteq> [] \<and> pre \<noteq> [] \<and> list_all (\<lambda>c. c \<in> set scheme_chars) pre
         then (map lower pre, tl post)
         else ('''', u))"

definition split_address :: "string \<Rightarrow> error + SplitResult" where
  "split_address u =
     (let (sch, u1) = leading_scheme u;
          (nl, u2) = (if take 2 u1 = ''//'' then splitnetloc (drop 2 u1) else ('''', u1))
      in if (CHR ''['' \<in> set nl \<and> CHR '']'' \<notin> set nl)
            \<or> (CHR '']'' \<in> set nl \<and> CHR ''['' \<notin> set nl)
         then Inl (ValueError ''Invalid IPv6 URL'')
         else let (u3, frag) = split_once CHR ''#'' u2;
                  (u4, q) = split_once CHR ''?'' u3
              in Inr \<lparr>scheme = sch, netloc = nl, path = u4, query = q, fragment = frag\<rparr>)"

definition engine_serve :: "HTTPRequest \<Rightarrow> engine option \<Rightarrow> (error + HTTPResponse) \<times> engine option" where
  "engine_serve req st =
     (case st of
        None \<Rightarrow> (Inl (ConnectionError ''connection refused''), None)
      | Some e \<Rightarrow>
         (case split_address (url req) of
            Inl err \<Rightarrow> (Inl err, st)
          | Inr u \<Rightarrow>
             if netloc u \<noteq> api_address e then (Inl (ConnectionError ''connection refused''), st)
             else (let (resp, e') = engine_handle e req (path u) in (Inr resp, Some e'))))"

text \<open>
  Modelled from the spec: launching the engine. The executable exists at one path; the
  engine comes up when its command line is the fixed flag set and the token variable is
  set, with an empty route table.
\<close>

definition engine_popen :: "string \<Rightarrow> popen_args \<Rightarrow> engine option \<Rightarrow> (error + nat) \<times> engine option" where
  "engine_popen exe call st =
     (case args call of
        [] \<Rightarrow> (Inl (OSError ''no command''), st)
      | x # flags \<Rightarrow>
         if x \<noteq> exe then (Inl (OSError ''No such file or directory''), st)
         else (case (flags, env call ''CONFIG_TLS_PROXY_TOKEN'') of
                 ([f1, a, f2, b, f3, l, f4], Some t) \<Rightarrow>
                   if f1 = ''-address'' \<and> f2 = ''-api-address'' \<and> f3 = ''-log-level''
                      \<and> f4 = ''-is-child-process''
                      \<and> l \<in> set [''error'', ''warn'', ''info'', ''debug'']
                   then (Inr 1, Some \<lparr>address = a, api_address = b, verbosity = l,
                                      secret = t, table = []\<rparr>)
                   else (Inr 1, st)
               | _ \<Rightarrow> (Inr 1, st)))"

text \<open>
  Modelled from the spec: the platform on which that engine is the child and the server.
  A termination signal ends the engine, after which nothing listens. The engine of the
  specification answers no redirect. The functions that a platform takes from the
  libraries are the plain ones.
\<close>

definition engine_platform :: "string \<Rightarrow> engine option platform" where
  "engine_platform exe =
     \<lparr>proxy_exe = exe, popen = engine_popen exe, terminate = (\<lambda>proc st. None),
      serve = engine_serve, redirect = follow_location,
      check_bracketed_host = refuse, checknetloc = refuse\<rparr>"

section \<open>Observations and test fixtures\<close>

text \<open>
  The requests that the proxy handed to the HTTP client, in the order of the calls.
\<close>

fun sent :: "event list \<Rightarrow> HTTPRequest list" where
  "sent [] = []"
| "sent (Sent req # evs) = req # sent evs"
| "sent (e # evs) = sent evs"

text \<open>
  The requests that went out on the wire: those handed to the HTTP client and those it
  sent on following a redirect.
\<close>

fun wire :: "event list \<Rightarrow> HTTPRequest list" where
  "wire [] = []"
| "wire (Sent req # evs) = req # wire evs"
| "wire (Followed req # evs) = req # wire evs"
| "wire (e # evs) = wire evs"

text \<open>The child processes launched among the recorded effects.\<close>

fun spawned :: "event list \<Rightarrow> popen_args list" where
  "spawned [] = []"
| "spawned (Spawned call # evs) = call # spawned evs"
| "spawned (e # evs) = spawned evs"

text \<open>
  The configuration of the specification's end-to-end scenario, a world in which
  nothing runs yet, and the world in which the engine of that scenario runs with an
  empty route table.
\<close>

definition demo_proxy :: proxy where
  "demo_proxy =
     \<lparr>log_level = Level_warn, public_url = ''tls://0.0.0.0:8080'',
      api_url = ''http://127.0.0.1:9999'', auth_token = ''s3cret'', proxy_process = None\<rparr>"

definition demo_engine :: engine where
  "demo_engine =
     \<lparr>address = ''0.0.0.0:8080'', api_address = ''127.0.0.1:9999'', verbosity = ''warn'',
      secret = ''s3cret'', table = []\<rparr>"

definition idle_world :: "engine option world" where
  "idle_world = \<lparr>environ = Map.empty, remote = None, events = []\<rparr>"

definition running_world :: "engine option world" where
  "running_world = \<lparr>environ = Map.empty, remote = Some demo_engine, events = []\<rparr>"

text \<open>The same engine with two routes in its table.\<close>

definition stocked_world :: "engine option world" where
  "stocked_world =
     \<lparr>environ = Map.empty,
      remote = Some (demo_engine\<lparr>table := [(''scheduler-1'', ''10.1.2.3:8786''),
                                         (''scheduler-2'', ''10.1.2.4:8786'')]\<rparr>),
      events = []\<rparr>"

text \<open>
  A server that gives the same answer to every request and keeps no state; launching a
  process on this platform always succeeds.
\<close>

definition answering_popen :: "popen_args \<Rightarrow> unit \<Rightarrow> (error + nat) \<times> unit" where
  "answering_popen call u = (Inr 1, u)"

definition answering_terminate :: "nat \<Rightarrow> unit \<Rightarrow> unit" where
  "answering_terminate proc u = u"

definition answering_serve :: "HTTPResponse \<Rightarrow> HTTPRequest \<Rightarrow> unit \<Rightarrow> (error + HTTPResponse) \<times> unit" where
  "answering_serve resp req u = (Inr resp, u)"

definition answering :: "HTTPResponse \<Rightarrow> unit platform" where
  "answering resp =
     \<lparr>proxy_exe = ''configurable-tls-proxy'', popen = answering_popen,
      terminate = answering_terminate, serve = answering_serve resp,
      redirect = follow_location, check_bracketed_host = refuse, checknetloc = refuse\<rparr>"

definition blank_world :: "unit world" where
  "blank_world = \<lparr>environ = Map.empty, remote = (), events = []\<rparr>"

text \<open>
  Servers that play back a list of answers, one for each request that arrives, whatever
  the request and the server it is addressed to; when the list is used up the connection
  is refused. \<open>moved c u\<close> is a redirect answer with status \<open>c\<close> to the address \<open>u\<close>.
\<close>

fun scripted_serve ::
  "HTTPRequest \<Rightarrow> (error + HTTPResponse) list \<Rightarrow> (error + HTTPResponse) \<times> (error + HTTPResponse) list" where
  "scripted_serve req [] = (Inl (ConnectionError ''connection refused''), [])"
| "scripted_serve req (a # as) = (a, as)"

definition scripted_popen ::
  "popen_args \<Rightarrow> (error + HTTPResponse) list \<Rightarrow> (error + nat) \<times> (error + HTTPResponse) list" where
  "scripted_popen call as = (Inr 1, as)"

definition scripted_terminate :: "nat \<Rightarrow> (error + HTTPResponse) list \<Rightarrow> (error + HTTPResponse) list" where
  "scripted_terminate proc as = as"

definition scripted :: "(error + HTTPResponse) list platform" where
  "scripted =
     \<lparr>proxy_exe = ''configurable-tls-proxy'', popen = scripted_popen,
      terminate = scripted_terminate, serve = scripted_serve,
      redirect = follow_location, check_bracketed_host = refuse, checknetloc = refuse\<rparr>"

definition script :: "(error + HTTPResponse) list \<Rightarrow> (error + HTTPResponse) list world" where
  "script as = \<lparr>environ = Map.empty, remote = as, events = []\<rparr>"

definition moved :: "nat \<Rightarrow> string \<Rightarrow> HTTPResponse" where
  "moved c u = \<lparr>code = c, response_headers = [(''Location'', u)], response_body = Utf8 (RawText '''')\<rparr>"

text \<open>
  The configuration of the end-to-end scenario with its two addresses written as the
  scenario writes them, without a scheme.
\<close>

definition bare_proxy :: proxy where
  "bare_proxy =
     \<lparr>log_level = Level_warn, public_url = ''0.0.0.0:8080'',
      api_url = ''127.0.0.1:9999'', auth_token = ''s3cret'', proxy_process = None\<rparr>"

section \<open>Properties\<close>

subsection \<open>What a request does to the world\<close>

lemma sent_append: "sent (xs @ ys) = sent xs @ sent ys"
  by (induction xs rule: sent.induct) simp_all

lemma wire_append: "wire (xs @ ys) = wire xs @ wire ys"
  by (induction xs rule: wire.induct) simp_all

lemma remote_emit: "remote (emit e w) = remote w"
  by (simp add: emit_def)

lemma events_emit: "events (emit e w) = events w @ [e]"
  by (simp add: emit_def)

lemma environ_emit: "environ (emit e w) = environ w"
  by (simp add: emit_def)

lemma spawned_append: "spawned (xs @ ys) = spawned xs @ spawned ys"
  by (induction xs rule: spawned.induct) simp_all

lemma sent_Followed: "sent (map Followed xs) = []"
  by (induction xs) simp_all

lemma wire_Followed: "wire (map Followed xs) = xs"
  by (induction xs) simp_all

lemma length_transfer: "length (fst (snd (transfer n pf req r))) \<le> n"
  by (induction n arbitrary: req r) (auto simp: Let_def split_def split: sum.splits)

lemma transfer_first:
  "transfer (Suc n) pf req r =
     (case fst (serve pf req r) of
        Inl e \<Rightarrow> (Inl e, [], snd (serve pf req r))
      | Inr resp \<Rightarrow>
          if redirection resp
          then (fst (transfer n pf (redirect pf req resp) (snd (serve pf req r))),
                redirect pf req resp
                  # fst (snd (transfer n pf (redirect pf req resp) (snd (serve pf req r)))),
                snd (snd (transfer n pf (redirect pf req resp) (snd (serve pf req r)))))
          else (Inr resp, [], snd (serve pf req r)))"
  by (simp add: Let_def split_def split: sum.splits)

lemma transfer_last: "transfer 0 pf req r = (fst (serve pf req r), [], snd (serve pf req r))"
  by (simp add: split_def Let_def)

lemma max_redirects_Suc: "max_redirects = Suc 4"
  by (simp add: max_redirects_def)

lemma fetch_events:
  "events (snd (fetch pf req w))
     = events w @ Sent req # map Followed (fst (snd (transfer max_redirects pf req (remote w))))"
  by (simp add: fetch_def split_def Let_def)

lemma sent_fetch: "sent (events (snd (fetch pf req w))) = sent (events w) @ [req]"
  by (simp add: fetch_events sent_append sent_Followed)

lemma wire_fetch:
  "wire (events (snd (fetch pf req w)))
     = wire (events w) @ req # fst (snd (transfer max_redirects pf req (remote w)))"
  by (simp add: fetch_events wire_append wire_Followed)

lemma fetch_remote:
  "remote (snd (fetch pf req w)) = snd (snd (transfer max_redirects pf req (remote w)))"
  by (simp add: fetch_def split_def Let_def)

lemma environ_fetch: "environ (snd (fetch pf req w)) = environ w"
  by (simp add: fetch_def split_def Let_def)

lemma fetch_result:
  "fst (fetch pf req w) =
     (case fst (transfer max_redirects pf req (remote w)) of
        Inl e \<Rightarrow> Inl e
      | Inr resp \<Rightarrow> settle resp)"
  by (simp add: fetch_def split_def Let_def)

lemma fetch_success:
  "fst (fetch pf req w) = Inr resp \<Longrightarrow> 200 \<le> code resp \<and> code resp < 300"
  by (auto simp: fetch_result settle_def split: sum.splits if_splits)

lemma add_route_unfold:
  "add_route pf p route target w =
     (let x = fetch pf \<lparr>url = api_url p @ ''/api/routes/'' @ route, http_method = PUT,
                         headers = [(''Authorization'', ''token '' @ auth_token p)],
                         body = Some (JsonText (JObj [(''target'', JStr target)]))\<rparr>
                (emit (Logged LogDebug (''Adding route '' @ route @ '' -> '' @ target)) w)
      in (case fst x of Inl e \<Rightarrow> Inl e | Inr resp \<Rightarrow> Inr (), snd x))"
  by (simp add: add_route_def api_request_def json_dumps_def Let_def split_def split: sum.splits)

lemma delete_route_unfold:
  "delete_route pf p route w =
     (let x = fetch pf \<lparr>url = api_url p @ ''/api/routes/'' @ route, http_method = DELETE,
                         headers = [(''Authorization'', ''token '' @ auth_token p)],
                         body = None\<rparr>
                (emit (Logged LogDebug (''Removing route '' @ route)) w)
      in (case fst x of Inl e \<Rightarrow> Inl e | Inr resp \<Rightarrow> Inr (), snd x))"
  by (simp add: delete_route_def api_request_def Let_def split_def split: sum.splits)

lemma get_all_routes_unfold:
  "get_all_routes pf p w =
     (let x = fetch pf \<lparr>url = api_url p @ ''/api/routes/'', http_method = GET,
                         headers = [(''Authorization'', ''token '' @ auth_token p)],
                         body = None\<rparr> w
      in (case fst x of
            Inl e \<Rightarrow> Inl e
          | Inr resp \<Rightarrow> json_loads (decode_utf8_replace (response_body resp)), snd x))"
  by (simp add: get_all_routes_def api_request_def Let_def split_def split: sum.splits)

lemma update_fresh: "k \<notin> fst ` set al \<Longrightarrow> AList.update k v al = al @ [(k, v)]"
  by (induction al) auto

lemma fold_update_distinct:
  "distinct (map fst (acc @ kvs)) \<Longrightarrow> fold (\<lambda>(k, v). AList.update k v) kvs acc = acc @ kvs"
proof (induction kvs arbitrary: acc)
  case Nil
  show ?case by simp
next
  case (Cons kv kvs)
  obtain k v where kv: "kv = (k, v)" by (cases kv)
  from Cons.prems have fresh: "k \<notin> fst ` set acc" by (auto simp: kv)
  have "distinct (map fst ((acc @ [(k, v)]) @ kvs))" using Cons.prems by (simp add: kv)
  then have "fold (\<lambda>(k, v). AList.update k v) kvs (acc @ [(k, v)]) = (acc @ [(k, v)]) @ kvs"
    by (rule Cons.IH)
  then show ?case by (simp add: kv update_fresh[OF fresh])
qed

lemma last_wins_distinct: "distinct (map fst kvs) \<Longrightarrow> last_wins kvs = kvs"
  using fold_update_distinct[of "[]" kvs] by (simp add: last_wins_def)

lemma loads_table_json: "loads_tree (table_json t) = table_json t"
proof -
  let ?f = "\<lambda>(k, v). (k, JStr v)"
  have m: "map (map_prod id loads_tree) (map ?f xs) = map ?f xs" for xs :: "(string \<times> string) list"
    by (induction xs) auto
  have k: "map fst (map ?f xs) = map fst xs" for xs :: "(string \<times> string) list"
    by (induction xs) auto
  have "distinct (map fst (map ?f (AList.clearjunk t)))"
    unfolding k by (rule distinct_clearjunk)
  then have "last_wins (map ?f (AList.clearjunk t)) = map ?f (AList.clearjunk t)"
    by (rule last_wins_distinct)
  then show ?thesis
    by (simp only: table_json_def loads_tree.simps m)
qed

lemma map_of_table:
  "map_of (map (\<lambda>(k, v). (k, JStr v)) (AList.clearjunk t)) k = map_option JStr (map_of t k)"
proof -
  have "map_of (map (\<lambda>(k, v). (k, JStr v)) xs) k = map_option JStr (map_of xs k)"
    for xs :: "('a \<times> string) list" and k
    by (induction xs) auto
  from this[of "AList.clearjunk t" k] show ?thesis by (simp add: map_of_clearjunk)
qed

subsection \<open>The text of a generated token\<close>

lemma length_hex_fixed: "length (hex_fixed k n) = k"
  by (induction k arbitrary: n) simp_all

lemma hexdigit_lower: "hexdigit d \<in> set ''0123456789abcdef''"
proof -
  have "d mod 16 < length ''0123456789abcdef''" by simp
  then show ?thesis unfolding hexdigit_def by (rule nth_mem)
qed

lemma set_hex_fixed: "set (hex_fixed k n) \<subseteq> set ''0123456789abcdef''"
proof (induction k arbitrary: n)
  case 0
  show ?case by simp
next
  case (Suc k)
  have "hexdigit (n mod 16) \<in> set ''0123456789abcdef''" by (rule hexdigit_lower)
  with Suc[of "n div 16"] show ?case by simp
qed

lemma length_uuid4_hex: "length (uuid4_hex r) = 32"
  by (simp add: uuid4_hex_def length_hex_fixed)

lemma uuid4_hex_nonempty: "uuid4_hex r \<noteq> []"
  using length_uuid4_hex[of r] by auto

subsection \<open>The bits of the draw that reach the token\<close>

lemma bit_subset:
  fixes a b :: "'a::len word"
  assumes "b AND NOT a = 0" and "bit b n"
  shows "bit a n"
proof (rule ccontr)
  assume "\<not> bit a n"
  moreover have "n < LENGTH('a)" using assms(2) by (rule bit_imp_le_length)
  ultimately have "bit (b AND NOT a) n" using assms(2) by (simp add: bit_simps)
  then show False using assms(1) by simp
qed

lemma masked_insert:
  fixes r a b c d :: "'a::len word"
  assumes ba: "\<And>n. bit b n \<Longrightarrow> bit a n" and dc: "\<And>n. bit d n \<Longrightarrow> bit c n"
  shows "((((r AND NOT a) OR b) AND NOT c) OR d) AND NOT a AND NOT c = r AND NOT a AND NOT c"
  by (rule bit_eqI) (auto simp: bit_simps dest: ba dc)

lemma masked_twice:
  fixes r a b c d :: "'a::len word"
  shows "((((r AND NOT a AND NOT c) AND NOT a) OR b) AND NOT c) OR d
           = (((r AND NOT a) OR b) AND NOT c) OR d"
  by (rule bit_eqI) (auto simp: bit_simps)

lemma drawn_uuid4: "drawn_bits (uuid4 r) = drawn_bits r"
proof -
  have k1: "(push_bit 48 (0x8000::128 word)) AND NOT (push_bit 48 0xc000) = 0" by simp
  have k2: "(push_bit 76 (4::128 word)) AND NOT (push_bit 64 0xf000) = 0" by simp
  show ?thesis
    unfolding drawn_bits_def uuid4_def
    by (rule masked_insert) (erule bit_subset[OF k1], erule bit_subset[OF k2])
qed

lemma uuid4_drawn: "uuid4 (drawn_bits r) = uuid4 r"
  unfolding drawn_bits_def uuid4_def by (rule masked_twice)

lemma uuid4_eq_iff: "uuid4 r = uuid4 r' \<longleftrightarrow> drawn_bits r = drawn_bits r'"
proof
  assume "uuid4 r = uuid4 r'"
  then have "drawn_bits (uuid4 r) = drawn_bits (uuid4 r')" by simp
  then show "drawn_bits r = drawn_bits r'" by (simp only: drawn_uuid4)
next
  assume "drawn_bits r = drawn_bits r'"
  then have "uuid4 (drawn_bits r) = uuid4 (drawn_bits r')" by simp
  then show "uuid4 r = uuid4 r'" by (simp only: uuid4_drawn)
qed

lemma hexdigit_inj:
  assumes "hexdigit a = hexdigit b" and "a < 16" and "b < 16"
  shows "a = b"
proof -
  have d: "distinct ''0123456789abcdef''" by simp
  have "''0123456789abcdef'' ! a = ''0123456789abcdef'' ! b"
    using assms by (simp add: hexdigit_def)
  moreover have "a < length ''0123456789abcdef''" "b < length ''0123456789abcdef''"
    using assms(2,3) by simp_all
  ultimately show ?thesis using d by (simp only: nth_eq_iff_index_eq)
qed

lemma hex_fixed_inj:
  "hex_fixed k n = hex_fixed k m \<Longrightarrow> n mod 16 ^ k = m mod 16 ^ k"
proof (induction k arbitrary: n m)
  case 0
  show ?case by simp
next
  case (Suc k)
  from Suc.prems have hi: "hex_fixed k (n div 16) = hex_fixed k (m div 16)"
    and lo: "hexdigit (n mod 16) = hexdigit (m mod 16)"
    by simp_all
  have lo': "n mod 16 = m mod 16"
    by (rule hexdigit_inj[OF lo]) simp_all
  have hi': "n div 16 mod 16 ^ k = m div 16 mod 16 ^ k"
    by (rule Suc.IH[OF hi])
  have "n mod (16 * 16 ^ k) = 16 * (n div 16 mod 16 ^ k) + n mod 16"
    by (rule mod_mult2_eq)
  moreover have "m mod (16 * 16 ^ k) = 16 * (m div 16 mod 16 ^ k) + m mod 16"
    by (rule mod_mult2_eq)
  ultimately show ?case using lo' hi' by simp
qed

lemma drawn_bits_six:
  "drawn_bits r = r AND NOT (push_bit 62 1 OR push_bit 63 1 OR push_bit 76 1 OR push_bit 77 1
                             OR push_bit 78 1 OR push_bit 79 1)"
proof -
  have "NOT (push_bit 48 0xc000) AND NOT (push_bit 64 0xf000)
          = NOT (push_bit 62 1 OR push_bit 63 1 OR push_bit 76 1 OR push_bit 77 1
                             OR push_bit 78 1 OR push_bit 79 (1::128 word))"
    by simp
  then show ?thesis by (simp only: drawn_bits_def)
qed

lemma uuid4_hex_eq_iff: "uuid4_hex r = uuid4_hex r' \<longleftrightarrow> drawn_bits r = drawn_bits r'"
proof -
  have b: "unat x < 16 ^ 32" for x :: "128 word"
    using unsigned_less[of x, where 'a = nat] by simp
  have "uuid4 r = uuid4 r'" if "uuid4_hex r = uuid4_hex r'"
  proof -
    from that have "unat (uuid4 r) mod 16 ^ 32 = unat (uuid4 r') mod 16 ^ 32"
      unfolding uuid4_hex_def by (rule hex_fixed_inj)
    then have "unat (uuid4 r) = unat (uuid4 r')"
      using b[of "uuid4 r"] b[of "uuid4 r'"] by simp
    then show ?thesis by (rule word_unat_eq_iff[THEN iffD2])
  qed
  then have "uuid4_hex r = uuid4_hex r' \<longleftrightarrow> uuid4 r = uuid4 r'"
    by (auto simp: uuid4_hex_def)
  then show ?thesis by (simp only: uuid4_eq_iff)
qed

subsection \<open>Splitting well-formed addresses\<close>

lemma colon_not_scheme_char: "CHR '':'' \<notin> set scheme_chars"
  by (simp add: scheme_chars_def)

lemma leading_scheme_shape:
  assumes "s \<noteq> []" and "set s \<subseteq> set scheme_chars"
  shows "leading_scheme (s @ ''://'' @ t) = (map lower s, ''//'' @ t)"
proof -
  have nocolon: "\<And>c. c \<in> set s \<Longrightarrow> c \<noteq> CHR '':''"
    using assms(2) colon_not_scheme_char by auto
  have pre: "takeWhile (\<lambda>c. c \<noteq> CHR '':'') (s @ ''://'' @ t) = s"
    using nocolon by (simp add: takeWhile_append2)
  have post: "dropWhile (\<lambda>c. c \<noteq> CHR '':'') (s @ ''://'' @ t) = ''://'' @ t"
    using nocolon by (simp add: dropWhile_append2)
  have sc: "list_all (\<lambda>c. c \<in> set scheme_chars) s"
    using assms(2) by (auto simp: list_all_iff)
  show ?thesis
    unfolding leading_scheme_def Let_def pre post
    using assms(1) sc by simp
qed

lemma splitnetloc_shape:
  assumes "set a \<inter> set ''/?#'' = {}"
    and "rest = [] \<or> hd rest \<in> set ''/?#''"
  shows "splitnetloc (a @ rest) = (a, rest)"
proof -
  have a_ok: "\<And>c. c \<in> set a \<Longrightarrow> c \<notin> set ''/?#''"
    using assms(1) by auto
  have r0: "takeWhile (\<lambda>c. c \<notin> set ''/?#'') rest = []"
    using assms(2) by (cases rest) auto
  have r1: "dropWhile (\<lambda>c. c \<notin> set ''/?#'') rest = rest"
    using assms(2) by (cases rest) auto
  show ?thesis
    unfolding splitnetloc_def using a_ok r0 r1
    by (simp add: takeWhile_append2 dropWhile_append2)
qed

lemma split_address_shape:
  assumes "s \<noteq> []" and "set s \<subseteq> set scheme_chars"
    and "set a \<inter> set ''/?#[]'' = {}"
    and "rest = [] \<or> hd rest \<in> set ''/?#''"
  shows "split_address (s @ ''://'' @ a @ rest) =
           Inr \<lparr>scheme = map lower s, netloc = a,
                path = fst (split_once CHR ''?'' (fst (split_once CHR ''#'' rest))),
                query = snd (split_once CHR ''?'' (fst (split_once CHR ''#'' rest))),
                fragment = snd (split_once CHR ''#'' rest)\<rparr>"
proof -
  have a3: "set a \<inter> set ''/?#'' = {}" using assms(3) by auto
  have nl: "splitnetloc (a @ rest) = (a, rest)"
    by (rule splitnetloc_shape[OF a3 assms(4)])
  have br: "CHR ''['' \<notin> set a" "CHR '']'' \<notin> set a"
    using assms(3) by auto
  show ?thesis
    unfolding split_address_def leading_scheme_shape[OF assms(1,2)]
    using nl br by (simp add: split_def Let_def)
qed

subsection \<open>Percent-encoding and unreserved characters\<close>

lemma split_once_absent: "d \<notin> set s \<Longrightarrow> split_once d s = (s, [])"
proof -
  assume a: "d \<notin> set s"
  have t: "takeWhile (\<lambda>c. c \<noteq> d) s = s"
    using a by (simp add: takeWhile_eq_all_conv) auto
  have r: "dropWhile (\<lambda>c. c \<noteq> d) s = []"
    using a by (simp add: dropWhile_eq_Nil_conv) auto
  show ?thesis by (simp add: split_once_def t r)
qed

lemma unreserved_plain:
  assumes "c \<in> set unreserved"
  shows "c \<noteq> CHR ''%''" "c \<noteq> CHR ''/''" "c \<noteq> CHR ''?''" "c \<noteq> CHR ''#''"
  using assms by (auto simp: unreserved_def)

lemma percent_decode_unreserved:
  "set route \<subseteq> set unreserved \<Longrightarrow> percent_decode route = Some route"
  by (induction route rule: percent_decode.induct) (auto simp: unreserved_plain)

lemma percent_encode_Cons:
  "percent_encode (c # cs) = percent_encode_char c @ percent_encode cs"
  by (simp add: percent_encode_def)

lemma percent_encode_Nil: "percent_encode [] = []"
  by (simp add: percent_encode_def)

lemma length_percent_encode: "length s \<le> length (percent_encode s)"
  by (induction s) (auto simp: percent_encode_Cons percent_encode_Nil percent_encode_char_def)

lemma percent_encode_fixed_iff: "percent_encode s = s \<longleftrightarrow> set s \<subseteq> set unreserved"
proof (induction s)
  case Nil
  show ?case by (simp add: percent_encode_Nil)
next
  case (Cons c cs)
  show ?case
  proof (cases "c \<in> set unreserved")
    case True
    then show ?thesis using Cons by (simp add: percent_encode_Cons percent_encode_char_def)
  next
    case False
    have "length (percent_encode (c # cs)) = 3 + length (percent_encode cs)"
      using False by (simp add: percent_encode_Cons percent_encode_char_def)
    then have "length (percent_encode (c # cs)) \<noteq> length (c # cs)"
      using length_percent_encode[of cs] by simp
    then have "percent_encode (c # cs) \<noteq> c # cs" by metis
    then show ?thesis using False by simp
  qed
qed

subsection \<open>The engine's answers to the client's requests\<close>

lemma strip_prefix_append: "strip_prefix pre (pre @ s) = Some s"
  by (simp add: strip_prefix_def)

lemma route_path:
  assumes "s \<noteq> []" and "set s \<subseteq> set scheme_chars"
    and "set a \<inter> set ''/?#[]'' = {}"
    and "set route \<subseteq> set unreserved"
  shows "split_address ((s @ ''://'' @ a) @ ''/api/routes/'' @ route)
           = Inr \<lparr>scheme = map lower s, netloc = a, path = ''/api/routes/'' @ route,
                  query = [], fragment = []\<rparr>"
proof -
  have q: "CHR ''?'' \<notin> set (''/api/routes/'' @ route)"
    and h: "CHR ''#'' \<notin> set (''/api/routes/'' @ route)"
    using assms(4) unreserved_plain(3,4) by (simp_all, blast+)
  have r: "''/api/routes/'' @ route = [] \<or> hd (''/api/routes/'' @ route) \<in> set ''/?#''"
    by simp
  have "split_address (s @ ''://'' @ a @ (''/api/routes/'' @ route))
           = Inr \<lparr>scheme = map lower s, netloc = a, path = ''/api/routes/'' @ route,
                  query = [], fragment = []\<rparr>"
    by (simp only: split_address_shape[OF assms(1,2,3) r] split_once_absent[OF h] fst_conv
          snd_conv split_once_absent[OF q])
  then show ?thesis by (simp only: append_assoc)
qed

lemma engine_put:
  assumes "s \<noteq> []" and "set s \<subseteq> set scheme_chars"
    and "api_url p = s @ ''://'' @ api_address e"
    and "set (api_address e) \<inter> set ''/?#[]'' = {}"
    and "secret e = auth_token p"
    and "set route \<subseteq> set unreserved"
  shows "engine_serve
           \<lparr>url = api_url p @ ''/api/routes/'' @ route, http_method = PUT,
            headers = [(''Authorization'', ''token '' @ auth_token p)],
            body = Some (JsonText (JObj [(''target'', JStr target)]))\<rparr> (Some e)
         = (Inr no_content, Some (e\<lparr>table := AList.update route target (table e)\<rparr>))"
  unfolding assms(3)
  using route_path[OF assms(1,2,4,6)] strip_prefix_append[of "''/api/routes/''" route]
  by (simp add: engine_serve_def engine_handle_def assms(5)
        percent_decode_unreserved[OF assms(6)])

lemma engine_delete:
  assumes "s \<noteq> []" and "set s \<subseteq> set scheme_chars"
    and "api_url p = s @ ''://'' @ api_address e"
    and "set (api_address e) \<inter> set ''/?#[]'' = {}"
    and "secret e = auth_token p"
    and "set route \<subseteq> set unreserved"
  shows "engine_serve
           \<lparr>url = api_url p @ ''/api/routes/'' @ route, http_method = DELETE,
            headers = [(''Authorization'', ''token '' @ auth_token p)],
            body = None\<rparr> (Some e)
         = (Inr no_content, Some (e\<lparr>table := AList.delete route (table e)\<rparr>))"
  unfolding assms(3)
  using route_path[OF assms(1,2,4,6)] strip_prefix_append[of "''/api/routes/''" route]
  by (simp add: engine_serve_def engine_handle_def assms(5)
        percent_decode_unreserved[OF assms(6)])

lemma engine_get:
  assumes "s \<noteq> []" and "set s \<subseteq> set scheme_chars"
    and "api_url p = s @ ''://'' @ api_address e"
    and "set (api_address e) \<inter> set ''/?#[]'' = {}"
    and "secret e = auth_token p"
  shows "engine_serve
           \<lparr>url = api_url p @ ''/api/routes/'', http_method = GET,
            headers = [(''Authorization'', ''token '' @ auth_token p)],
            body = None\<rparr> (Some e)
         = (Inr \<lparr>code = 200, response_headers = [],
                  response_body = Utf8 (JsonText (table_json (table e)))\<rparr>, Some e)"
proof -
  have e: "set ([]::string) \<subseteq> set unreserved" by simp
  show ?thesis
    unfolding assms(3)
    using route_path[OF assms(1,2,4) e]
    by (simp add: engine_serve_def engine_handle_def assms(5)
        strip_prefix_append[of "''/api/routes/''" "[]", simplified])
qed

lemma transfer_max:
  "transfer max_redirects pf req r =
     (case fst (serve pf req r) of
        Inl e \<Rightarrow> (Inl e, [], snd (serve pf req r))
      | Inr resp \<Rightarrow>
          if redirection resp
          then (fst (transfer 4 pf (redirect pf req resp) (snd (serve pf req r))),
                redirect pf req resp
                  # fst (snd (transfer 4 pf (redirect pf req resp) (snd (serve pf req r)))),
                snd (snd (transfer 4 pf (redirect pf req resp) (snd (serve pf req r)))))
          else (Inr resp, [], snd (serve pf req r)))"
  by (simp only: max_redirects_Suc transfer_first)

lemma transfer_numeral:
  "transfer (numeral k) pf req r =
     (case fst (serve pf req r) of
        Inl e \<Rightarrow> (Inl e, [], snd (serve pf req r))
      | Inr resp \<Rightarrow>
          if redirection resp
          then (fst (transfer (pred_numeral k) pf (redirect pf req resp) (snd (serve pf req r))),
                redirect pf req resp
                  # fst (snd (transfer (pred_numeral k) pf (redirect pf req resp)
                                 (snd (serve pf req r)))),
                snd (snd (transfer (pred_numeral k) pf (redirect pf req resp)
                            (snd (serve pf req r)))))
          else (Inr resp, [], snd (serve pf req r)))"
  by (simp only: numeral_eq_Suc transfer_first)

lemma transfer_settled:
  assumes "serve pf req r = (Inr resp, r')" and "\<not> redirection resp"
  shows "transfer max_redirects pf req r = (Inr resp, [], r')"
  unfolding transfer_max using assms by simp

lemma transfer_refused:
  assumes "serve pf req r = (Inl e, r')"
  shows "transfer max_redirects pf req r = (Inl e, [], r')"
  unfolding transfer_max using assms by simp

lemmas op_defs = add_route_unfold delete_route_unfold get_all_routes_unfold fetch_result
  fetch_events fetch_remote events_emit remote_emit sent_append sent_Followed

lemma add_route_engine:
  assumes "s \<noteq> []" and "set s \<subseteq> set scheme_chars"
    and "api_url p = s @ ''://'' @ api_address e"
    and "set (api_address e) \<inter> set ''/?#[]'' = {}"
    and "secret e = auth_token p"
    and "remote w = Some e"
    and "set route \<subseteq> set unreserved"
  shows "fst (add_route (engine_platform exe) p route target w) = Inr ()"
    and "remote (snd (add_route (engine_platform exe) p route target w))
           = Some (e\<lparr>table := AList.update route target (table e)\<rparr>)"
proof -
  have put: "serve (engine_platform exe)
           \<lparr>url = api_url p @ ''/api/routes/'' @ route, http_method = PUT,
            headers = [(''Authorization'', ''token '' @ auth_token p)],
            body = Some (JsonText (JObj [(''target'', JStr target)]))\<rparr> (Some e)
         = (Inr no_content, Some (e\<lparr>table := AList.update route target (table e)\<rparr>))"
    using engine_put[OF assms(1,2,3,4,5,7)] by (simp add: engine_platform_def)
  have nr: "\<not> redirection no_content"
    by (simp add: redirection_def no_content_def)
  note tr = transfer_settled[OF put nr]
  show "fst (add_route (engine_platform exe) p route target w) = Inr ()"
    and "remote (snd (add_route (engine_platform exe) p route target w))
           = Some (e\<lparr>table := AList.update route target (table e)\<rparr>)"
    using tr by (simp_all add: op_defs Let_def assms(6) no_content_def settle_def)
qed

lemma get_all_routes_engine:
  assumes "s \<noteq> []" and "set s \<subseteq> set scheme_chars"
    and "api_url p = s @ ''://'' @ api_address e"
    and "set (api_address e) \<inter> set ''/?#[]'' = {}"
    and "secret e = auth_token p"
    and "remote w = Some e"
  shows "fst (get_all_routes (engine_platform exe) p w) = Inr (table_json (table e))"
proof -
  let ?resp = "\<lparr>code = 200, response_headers = [],
                  response_body = Utf8 (JsonText (table_json (table e)))\<rparr>"
  have get: "serve (engine_platform exe)
           \<lparr>url = api_url p @ ''/api/routes/'', http_method = GET,
            headers = [(''Authorization'', ''token '' @ auth_token p)],
            body = None\<rparr> (Some e)
         = (Inr ?resp, Some e)"
    using engine_get[OF assms(1,2,3,4,5)] by (simp add: engine_platform_def)
  have nr: "\<not> redirection ?resp"
    by (simp add: redirection_def)
  note tr = transfer_settled[OF get nr]
  show ?thesis
    unfolding get_all_routes_unfold Let_def fst_conv fetch_result assms(6) tr
    by (simp add: settle_def loads_table_json)
qed

lemmas wire_defs =
  split_address_def leading_scheme_def splitnetloc_def split_once_def scheme_chars_def lower_def
  engine_serve_def engine_handle_def strip_prefix_def reject_def no_content_def
  engine_platform_def demo_proxy_def demo_engine_def running_world_def
  idle_world_def Let_def split_def transfer_max transfer_numeral transfer_last
  redirection_def settle_def

lemma demo_link:
  "''http'' \<noteq> ''''" "set ''http'' \<subseteq> set scheme_chars"
  "api_url demo_proxy = ''http'' @ ''://'' @ api_address demo_engine"
  "set (api_address demo_engine) \<inter> set ''/?#[]'' = {}"
  "secret demo_engine = auth_token demo_proxy"
  "remote running_world = Some demo_engine"
  "set ''scheduler-1'' \<subseteq> set unreserved"
  by (simp_all add: scheme_chars_def demo_proxy_def demo_engine_def running_world_def
        unreserved_def)

subsection \<open>The network location that \<^verbatim>\<open>urlsplit\<close> finds\<close>

lemma scheme_char_kept: "c \<in> set scheme_chars \<Longrightarrow> \<not> unsafe_url_byte c"
  by (auto simp: scheme_chars_def unsafe_url_byte_def)

lemma letter_not_stripped: "ascii_letter c \<Longrightarrow> \<not> c0_control_or_space c"
  by (auto simp: ascii_letter_def c0_control_or_space_def Let_def)

lemma delimiter_kept: "c \<in> set ''/?#'' \<Longrightarrow> \<not> unsafe_url_byte c"
  by (auto simp: unsafe_url_byte_def)

lemma split_scheme_shape:
  assumes "s \<noteq> []" and "ascii_letter (hd s)" and "set s \<subseteq> set scheme_chars"
  shows "split_scheme (s @ ''://'' @ t) = (map lower s, ''//'' @ t)"
proof -
  have nocolon: "\<And>c. c \<in> set s \<Longrightarrow> c \<noteq> CHR '':''"
    using assms(3) colon_not_scheme_char by auto
  have pre: "takeWhile (\<lambda>c. c \<noteq> CHR '':'') (s @ ''://'' @ t) = s"
    using nocolon by (simp add: takeWhile_append2)
  have post: "dropWhile (\<lambda>c. c \<noteq> CHR '':'') (s @ ''://'' @ t) = ''://'' @ t"
    using nocolon by (simp add: dropWhile_append2)
  have sc: "list_all (\<lambda>c. c \<in> set scheme_chars) s"
    using assms(3) by (auto simp: list_all_iff)
  show ?thesis
    unfolding split_scheme_def Let_def pre post
    using assms(1,2) sc by simp
qed

lemma urlsplit_netloc:
  assumes "s \<noteq> []" and "ascii_letter (hd s)" and "set s \<subseteq> set scheme_chars"
    and "set a \<inter> set ''/?#'' = {}"
    and "\<forall>c \<in> set a. \<not> unsafe_url_byte c"
    and "rest = [] \<or> hd rest \<in> set ''/?#''"
    and "CHR ''['' \<in> set a \<longleftrightarrow> CHR '']'' \<in> set a"
    and "CHR ''['' \<in> set a \<longrightarrow> check_bracketed_host pf (bracketed_host a) = None"
    and "a = [] \<or> isascii a \<or> checknetloc pf a = None"
  shows "\<exists>r. urlsplit pf (s @ ''://'' @ a @ rest) = Inr r \<and> netloc r = a
              \<and> scheme r = map lower s"
proof -
  obtain h s' where s: "s = h # s'" using assms(1) by (cases s) auto
  have h: "\<not> c0_control_or_space h"
    using assms(2) letter_not_stripped by (simp add: s)
  have strip: "dropWhile c0_control_or_space (s @ ''://'' @ a @ rest) = s @ ''://'' @ a @ rest"
    using h by (simp add: s)
  let ?rest = "filter (\<lambda>c. \<not> unsafe_url_byte c) rest"
  have fs: "filter (\<lambda>c. \<not> unsafe_url_byte c) s = s"
    using assms(3) scheme_char_kept by (auto simp: filter_id_conv)
  have fa: "filter (\<lambda>c. \<not> unsafe_url_byte c) a = a"
    using assms(5) by (auto simp: filter_id_conv)
  have fd: "filter (\<lambda>c. \<not> unsafe_url_byte c) ''://'' = ''://''"
    by (simp add: unsafe_url_byte_def)
  have clean: "filter (\<lambda>c. \<not> unsafe_url_byte c) (s @ ''://'' @ a @ rest)
                 = s @ ''://'' @ a @ ?rest"
    unfolding filter_append fs fa fd ..
  have r: "?rest = [] \<or> hd ?rest \<in> set ''/?#''"
  proof (cases rest)
    case Nil
    then show ?thesis by simp
  next
    case (Cons x xs)
    then have "x \<in> set ''/?#''" using assms(6) by simp
    then have "\<not> unsafe_url_byte x" by (rule delimiter_kept)
    then show ?thesis using Cons \<open>x \<in> set ''/?#''\<close> by simp
  qed
  have sch: "split_scheme (s @ ''://'' @ a @ ?rest) = (map lower s, ''//'' @ a @ ?rest)"
    by (rule split_scheme_shape[OF assms(1,2,3)])
  have nl: "splitnetloc (a @ ?rest) = (a, ?rest)"
    by (rule splitnetloc_shape[OF assms(4) r])
  show ?thesis
    unfolding urlsplit_def strip clean Let_def sch
    using nl assms(7,8,9) by (auto simp: split_def)
qed

lemma tl_dropWhile_subset: "set (tl (dropWhile P xs)) \<subseteq> set xs"
proof
  fix x
  assume "x \<in> set (tl (dropWhile P xs))"
  then have "x \<in> set (dropWhile P xs)" by (cases "dropWhile P xs") simp_all
  then show "x \<in> set xs" by (rule set_dropWhileD)
qed

lemma split_scheme_rest: "set (snd (split_scheme u)) \<subseteq> set u"
  using tl_dropWhile_subset[of "\<lambda>c. c \<noteq> CHR '':''" u]
  by (simp add: split_scheme_def Let_def)

lemma urlsplit_no_slash:
  assumes "CHR ''/'' \<notin> set u"
  shows "\<exists>r. urlsplit pf u = Inr r \<and> netloc r = ''''"
proof -
  let ?u0 = "filter (\<lambda>c. \<not> unsafe_url_byte c) (dropWhile c0_control_or_space u)"
  have "set ?u0 \<subseteq> set u"
    using set_dropWhileD[of _ c0_control_or_space u] by auto
  then have "set (snd (split_scheme ?u0)) \<subseteq> set u"
    using split_scheme_rest[of ?u0] by blast
  then have no: "CHR ''/'' \<notin> set (snd (split_scheme ?u0))"
    using assms by blast
  have "take 2 (snd (split_scheme ?u0)) \<noteq> ''//''"
  proof
    assume t: "take 2 (snd (split_scheme ?u0)) = ''//''"
    have "set (take 2 (snd (split_scheme ?u0))) \<subseteq> set (snd (split_scheme ?u0))"
      by (rule set_take_subset)
    then show False using no unfolding t by simp
  qed
  then show ?thesis
    unfolding urlsplit_def Let_def by (simp add: split_def)
qed

lemma urlsplit_demo:
  "urlsplit pf ''tls://0.0.0.0:8080''
     = Inr \<lparr>scheme = ''tls'', netloc = ''0.0.0.0:8080'', path = '''', query = '''',
            fragment = ''''\<rparr>"
  "urlsplit pf ''http://127.0.0.1:9999''
     = Inr \<lparr>scheme = ''http'', netloc = ''127.0.0.1:9999'', path = '''', query = '''',
            fragment = ''''\<rparr>"
  by (simp_all add: urlsplit_def split_scheme_def splitnetloc_def split_once_def
        scheme_chars_def lower_def c0_control_or_space_def unsafe_url_byte_def
        ascii_letter_def isascii_def Let_def)

lemma urlsplit_bare:
  "urlsplit pf ''0.0.0.0:8080''
     = Inr \<lparr>scheme = '''', netloc = '''', path = ''0.0.0.0:8080'', query = '''',
            fragment = ''''\<rparr>"
  "urlsplit pf ''127.0.0.1:9999''
     = Inr \<lparr>scheme = '''', netloc = '''', path = ''127.0.0.1:9999'', query = '''',
            fragment = ''''\<rparr>"
  by (simp_all add: urlsplit_def split_scheme_def splitnetloc_def split_once_def
        scheme_chars_def lower_def c0_control_or_space_def unsafe_url_byte_def
        ascii_letter_def isascii_def Let_def)

section \<open>The claims\<close>

subsection \<open>Route identifiers in the request address\<close>

text \<open>
  C1 (as amended). \<^verbatim>\<open>add_route\<close> and \<^verbatim>\<open>delete_route\<close> send one request each, to the address
  made of \<^verbatim>\<open>api_url\<close>, the text \<^verbatim>\<open>/api/routes/\<close> and the route pasted in as it is: the
  route is not percent-encoded. The address is the percent-encoded one of the
  specification exactly when the route consists of unreserved characters only (letters,
  digits, \<^verbatim>\<open>-\<close>, \<^verbatim>\<open>.\<close>, \<^verbatim>\<open>_\<close>, \<^verbatim>\<open>~\<close>). For such a route, against the engine of the
  specification running with the proxy's token on the proxy's API address, \<^verbatim>\<open>add_route\<close>
  succeeds and \<^verbatim>\<open>get_all_routes\<close> then returns an object in which the same literal key is
  mapped to the target.
\<close>

theorem route_sent_verbatim:
  assumes "s \<noteq> []" and "set s \<subseteq> set scheme_chars"
    and "api_url p = s @ ''://'' @ api_address e"
    and "set (api_address e) \<inter> set ''/?#[]'' = {}"
    and "secret e = auth_token p"
    and "remote w = Some e"
    and "set route \<subseteq> set unreserved"
  shows "(\<exists>req. sent (events (snd (add_route pf p r t v))) = sent (events v) @ [req]
                 \<and> url req = api_url p @ ''/api/routes/'' @ r)
         \<and> (\<exists>req. sent (events (snd (delete_route pf p r v))) = sent (events v) @ [req]
                 \<and> url req = api_url p @ ''/api/routes/'' @ r)
         \<and> ((api_url p @ ''/api/routes/'' @ r = spec_route_url p r)
               \<longleftrightarrow> set r \<subseteq> set unreserved)
         \<and> fst (add_route (engine_platform exe) p route target w) = Inr ()
         \<and> (\<exists>kvs. fst (get_all_routes (engine_platform exe) p
                           (snd (add_route (engine_platform exe) p route target w)))
                      = Inr (JObj kvs)
                  \<and> map_of kvs route = Some (JStr target))"
proof -
  have gen: "\<exists>req. sent (events (snd (add_route pf p r t v))) = sent (events v) @ [req]
                 \<and> url req = api_url p @ ''/api/routes/'' @ r"
    "\<exists>req. sent (events (snd (delete_route pf p r v))) = sent (events v) @ [req]
                 \<and> url req = api_url p @ ''/api/routes/'' @ r"
    by (simp_all add: op_defs Let_def)
  have enc: "(api_url p @ ''/api/routes/'' @ r = spec_route_url p r)
               \<longleftrightarrow> set r \<subseteq> set unreserved"
    unfolding spec_route_url_def same_append_eq
    using percent_encode_fixed_iff[of r] by (simp add: eq_commute)
  let ?e' = "e\<lparr>table := AList.update route target (table e)\<rparr>"
  have add: "fst (add_route (engine_platform exe) p route target w) = Inr ()"
    and rem: "remote (snd (add_route (engine_platform exe) p route target w)) = Some ?e'"
    by (rule add_route_engine[OF assms])+
  have c: "api_url p = s @ ''://'' @ api_address ?e'"
    "set (api_address ?e') \<inter> set ''/?#[]'' = {}" "secret ?e' = auth_token p"
    using assms(3,4,5) by simp_all
  have res: "fst (get_all_routes (engine_platform exe) p
                           (snd (add_route (engine_platform exe) p route target w)))
                      = Inr (table_json (table ?e'))"
    by (rule get_all_routes_engine[OF assms(1,2) c rem])
  have look: "map_of (map (\<lambda>(k, v). (k, JStr v)) (AList.clearjunk (table ?e'))) route
                = Some (JStr target)"
    by (simp add: map_of_table update_conv')
  show ?thesis
    using gen enc add res look unfolding table_json_def by blast
qed

theorem route_sent_verbatim_witness:
  "api_url demo_proxy = ''http'' @ ''://'' @ api_address demo_engine
   \<and> secret demo_engine = auth_token demo_proxy
   \<and> remote running_world = Some demo_engine
   \<and> set ''scheduler-1'' \<subseteq> set unreserved
   \<and> spec_route_url demo_proxy ''scheduler-1'' = ''http://127.0.0.1:9999/api/routes/scheduler-1''
   \<and> fst (add_route (engine_platform ''configurable-tls-proxy'') demo_proxy ''scheduler-1''
            ''10.1.2.3:8786'' running_world) = Inr ()
   \<and> (\<exists>kvs. fst (get_all_routes (engine_platform ''configurable-tls-proxy'') demo_proxy
                      (snd (add_route (engine_platform ''configurable-tls-proxy'') demo_proxy
                              ''scheduler-1'' ''10.1.2.3:8786'' running_world)))
                = Inr (JObj kvs)
              \<and> map_of kvs ''scheduler-1'' = Some (JStr ''10.1.2.3:8786''))"
proof -
  note T = route_sent_verbatim[OF demo_link,
      where pf = "engine_platform ''configurable-tls-proxy''" and r = "''scheduler-1''"
        and t = "''10.1.2.3:8786''" and v = running_world
        and exe = "''configurable-tls-proxy''" and target = "''10.1.2.3:8786''"]
  have u: "spec_route_url demo_proxy ''scheduler-1''
             = ''http://127.0.0.1:9999/api/routes/scheduler-1''"
    using T[THEN conjunct2, THEN conjunct2, THEN conjunct1] demo_link(7)
    by (simp add: demo_proxy_def)
  show ?thesis
    using demo_link(3,5,6,7) u T[THEN conjunct2, THEN conjunct2, THEN conjunct2]
    by simp
qed

text \<open>
  The claim as written fails at a route with a question mark, a reserved character: the
  address sent holds the route unencoded, where the specification's address has
  \<^verbatim>\<open>%3F\<close>; the HTTP client cuts the path at the question mark, the engine stores the
  target under the key \<^verbatim>\<open>a\<close>, and the key given to \<^verbatim>\<open>add_route\<close> does not come back.
\<close>

theorem route_not_encoded_counterexample:
  "sent (events (snd (add_route (engine_platform ''configurable-tls-proxy'') demo_proxy
                        ''a?b'' ''10.0.0.1:9000'' running_world)))
     = [\<lparr>url = ''http://127.0.0.1:9999/api/routes/a?b'', http_method = PUT,
         headers = [(''Authorization'', ''token s3cret'')],
         body = Some (JsonText (JObj [(''target'', JStr ''10.0.0.1:9000'')]))\<rparr>]
   \<and> spec_route_url demo_proxy ''a?b'' = ''http://127.0.0.1:9999/api/routes/a%3Fb''
   \<and> fst (get_all_routes (engine_platform ''configurable-tls-proxy'') demo_proxy
            (snd (add_route (engine_platform ''configurable-tls-proxy'') demo_proxy
                    ''a?b'' ''10.0.0.1:9000'' running_world)))
       = Inr (JObj [(''a'', JStr ''10.0.0.1:9000'')])"
  by (simp add: op_defs wire_defs spec_route_url_def percent_encode_def
        percent_encode_char_def unreserved_def upper_hexdigit_def loads_table_json)
     (simp add: table_json_def)

subsection \<open>Token resolution\<close>

text \<open>
  C2 (as amended). Token resolution always produces a token. When
  \<^verbatim>\<open>CONFIG_TLS_PROXY_TOKEN\<close> holds a non-empty string, that string is returned unchanged
  and nothing else happens, so every repeated call returns it again. When the variable
  is unset or empty, the result is the hexadecimal form of a version-4 UUID built from a
  128-bit draw: 32 characters, all lowercase hexadecimal digits, and a log record that
  does not contain the token. Two generated tokens are equal exactly when the two draws
  agree outside the six bits that \<^verbatim>\<open>uuid4\<close> overwrites, bits 62, 63 and 76 to 79 (so 122
  drawn bits reach the token, and two runs get different tokens exactly when their draws
  differ in one of these).
\<close>

theorem token_resolution:
  "(\<forall>t. environ w ''CONFIG_TLS_PROXY_TOKEN'' = Some t \<and> t \<noteq> ''''
        \<longrightarrow> auth_token_default r w = (t, w))
   \<and> (environ w ''CONFIG_TLS_PROXY_TOKEN'' = None \<or> environ w ''CONFIG_TLS_PROXY_TOKEN'' = Some ''''
        \<longrightarrow> fst (auth_token_default r w) = uuid4_hex r
            \<and> events (snd (auth_token_default r w))
                = events w @ [Logged LogInfo ''Generating new CONFIG_TLS_PROXY_TOKEN''])
   \<and> length (uuid4_hex r) = 32
   \<and> set (uuid4_hex r) \<subseteq> set ''0123456789abcdef''
   \<and> (uuid4_hex r = uuid4_hex r' \<longleftrightarrow> drawn_bits r = drawn_bits r')
   \<and> drawn_bits r = r AND NOT (push_bit 62 1 OR push_bit 63 1 OR push_bit 76 1
                                   OR push_bit 77 1 OR push_bit 78 1 OR push_bit 79 1)"
proof -
  have sup: "\<forall>t. environ w ''CONFIG_TLS_PROXY_TOKEN'' = Some t \<and> t \<noteq> ''''
        \<longrightarrow> auth_token_default r w = (t, w)"
    by (simp add: auth_token_default_def)
  have gen: "environ w ''CONFIG_TLS_PROXY_TOKEN'' = None \<or> environ w ''CONFIG_TLS_PROXY_TOKEN'' = Some ''''
        \<longrightarrow> fst (auth_token_default r w) = uuid4_hex r
            \<and> events (snd (auth_token_default r w))
                = events w @ [Logged LogInfo ''Generating new CONFIG_TLS_PROXY_TOKEN'']"
    by (auto simp: auth_token_default_def emit_def)
  have len: "length (uuid4_hex r) = 32"
    by (rule length_uuid4_hex)
  have low: "set (uuid4_hex r) \<subseteq> set ''0123456789abcdef''"
    unfolding uuid4_hex_def by (rule set_hex_fixed)
  show ?thesis
    using sup gen len low uuid4_hex_eq_iff[of r r'] drawn_bits_six[of r] by blast
qed

theorem token_resolution_witness:
  "environ (idle_world\<lparr>environ := [''CONFIG_TLS_PROXY_TOKEN'' \<mapsto> ''s3cret'']\<rparr>)
       ''CONFIG_TLS_PROXY_TOKEN'' = Some ''s3cret''
   \<and> ''s3cret'' \<noteq> ''''
   \<and> fst (auth_token_default 5 (idle_world\<lparr>environ := [''CONFIG_TLS_PROXY_TOKEN'' \<mapsto> ''s3cret'']\<rparr>))
       = ''s3cret''
   \<and> environ idle_world ''CONFIG_TLS_PROXY_TOKEN'' = None
   \<and> fst (auth_token_default 5 idle_world) = uuid4_hex 5
   \<and> uuid4_hex 5 \<noteq> uuid4_hex 4"
proof -
  have d: "drawn_bits 5 \<noteq> drawn_bits 4" by (simp add: drawn_bits_def)
  show ?thesis
    using token_resolution[of "idle_world\<lparr>environ := [''CONFIG_TLS_PROXY_TOKEN'' \<mapsto> ''s3cret'']\<rparr>" 5 5]
      token_resolution[of idle_world 5 4] d
    by (simp add: idle_world_def)
qed

text \<open>
  The claim as written fails: two runs whose draws differ (here in bit 62, one of the
  variant bits that \<^verbatim>\<open>uuid4\<close> overwrites) generate the same token, so the token does not
  carry 128 drawn bits and two runs are not bound to differ.
\<close>

theorem generated_tokens_collide_counterexample:
  "(0::128 word) \<noteq> push_bit 62 1
   \<and> fst (auth_token_default 0 idle_world) = fst (auth_token_default (push_bit 62 1) idle_world)"
proof -
  have d: "drawn_bits 0 = drawn_bits (push_bit 62 1)"
    by (simp add: drawn_bits_def)
  have "uuid4_hex 0 = uuid4_hex (push_bit 62 1)"
    using d by (simp only: uuid4_hex_eq_iff)
  moreover have "(0::128 word) \<noteq> push_bit 62 1" by simp
  ultimately show ?thesis
    by (simp add: auth_token_default_def idle_world_def)
qed

subsection \<open>Deleting a route that the engine does not have\<close>

text \<open>
  C3. The claim, and the docstring of \<^verbatim>\<open>delete_route\<close> (``Idempotent, no error is raised
  if the route doesn't exist''), promise that deleting an absent route raises nothing,
  also when the engine answers the delete of an absent key with 404. The method does not
  keep the promise: it awaits the request and catches nothing, so against a server that
  answers 404 the call ends in the HTTP error with status 404 that \<^verbatim>\<open>fetch\<close> raises, after
  the one DELETE request.
\<close>

theorem delete_route_absent_404_raises:
  "fst (delete_route (answering (reject 404 ''no such route'')) demo_proxy ''scheduler-1''
          blank_world)
     = Inl (HTTPError 404 (reject 404 ''no such route''))
   \<and> wire (events (snd (delete_route (answering (reject 404 ''no such route'')) demo_proxy
                             ''scheduler-1'' blank_world)))
     = [\<lparr>url = ''http://127.0.0.1:9999/api/routes/scheduler-1'', http_method = DELETE,
         headers = [(''Authorization'', ''token s3cret'')], body = None\<rparr>]"
  by (simp add: delete_route_unfold fetch_result wire_fetch events_emit wire_append
        transfer_max redirection_def settle_def answering_def answering_serve_def reject_def
        demo_proxy_def blank_world_def Let_def)

subsection \<open>Launching the engine\<close>

text \<open>
  C4 (as amended). \<^verbatim>\<open>start\<close> takes from each of the two addresses the network location
  that \<^verbatim>\<open>urlparse\<close> finds in it. When \<^verbatim>\<open>urlparse\<close> raises on one of them, \<^verbatim>\<open>start\<close> raises
  the same error and has done nothing: no record is logged and no child is launched.
  Otherwise \<^verbatim>\<open>start\<close> logs one record and launches one child: the command is the
  executable followed by \<^verbatim>\<open>-address\<close> and the network location of the public address,
  \<^verbatim>\<open>-api-address\<close> and the network location of the API address, \<^verbatim>\<open>-log-level\<close> and the
  level (one of the four names), and \<^verbatim>\<open>-is-child-process\<close>; the child's environment is
  the parent's with \<^verbatim>\<open>CONFIG_TLS_PROXY_TOKEN\<close> set to the token; standard input is a pipe,
  standard output and error are the parent's, and the child starts a new session.
  \<^verbatim>\<open>start\<close> puts no request on the wire, so it does not wait for the API; its result is
  decided by the launch alone, and the parent's own environment is unchanged.
  The network location of an address made of a scheme (letters, digits, \<^verbatim>\<open>+\<close>, \<^verbatim>\<open>-\<close>,
  \<^verbatim>\<open>.\<close>, the first a letter), \<^verbatim>\<open>://\<close>, a host and port, and then nothing or a path, query
  or fragment, is the host and port, provided the checks that \<^verbatim>\<open>urlparse\<close> makes of a
  host in brackets and of a non-ASCII host pass. The network location of an address
  without a slash, such as a bare host and port, is empty.
\<close>

theorem start_launches_engine:
  "(\<forall>e. urlsplit pf (public_url p) = Inl e \<longrightarrow> start pf p w = (Inl e, w))
   \<and> (\<forall>pu e. urlsplit pf (public_url p) = Inr pu \<and> urlsplit pf (api_url p) = Inl e
          \<longrightarrow> start pf p w = (Inl e, w))
   \<and> (\<forall>pu au call.
         urlsplit pf (public_url p) = Inr pu \<and> urlsplit pf (api_url p) = Inr au
         \<and> call = \<lparr>args = [proxy_exe pf, ''-address'', netloc pu, ''-api-address'', netloc au,
                            ''-log-level'', level_name (log_level p), ''-is-child-process''],
                    env = (environ w)(''CONFIG_TLS_PROXY_TOKEN'' \<mapsto> auth_token p),
                    stdin = PIPE, stdout = Inherit, stderr = Inherit,
                    start_new_session = True\<rparr>
         \<longrightarrow> events (snd (start pf p w))
               = events w @ [Logged LogInfo ''Starting the Dask Gateway Proxy...'', Spawned call]
             \<and> wire (events (snd (start pf p w))) = wire (events w)
             \<and> remote (snd (start pf p w)) = snd (popen pf call (remote w))
             \<and> environ (snd (start pf p w)) = environ w
             \<and> fst (start pf p w)
                 = (case fst (popen pf call (remote w)) of
                      Inl e \<Rightarrow> Inl e
                    | Inr proc \<Rightarrow> Inr (p\<lparr>proxy_process := Some proc\<rparr>)))
   \<and> level_name (log_level p) \<in> set [''error'', ''warn'', ''info'', ''debug'']
   \<and> (\<forall>s a rest.
         s \<noteq> [] \<and> ascii_letter (hd s) \<and> set s \<subseteq> set scheme_chars
         \<and> set a \<inter> set ''/?#'' = {} \<and> (\<forall>c \<in> set a. \<not> unsafe_url_byte c)
         \<and> (rest = [] \<or> hd rest \<in> set ''/?#'')
         \<and> (CHR ''['' \<in> set a \<longleftrightarrow> CHR '']'' \<in> set a)
         \<and> (CHR ''['' \<in> set a \<longrightarrow> check_bracketed_host pf (bracketed_host a) = None)
         \<and> (a = [] \<or> isascii a \<or> checknetloc pf a = None)
         \<longrightarrow> (\<exists>r. urlsplit pf (s @ ''://'' @ a @ rest) = Inr r \<and> netloc r = a))
   \<and> (\<forall>u. CHR ''/'' \<notin> set u \<longrightarrow> (\<exists>r. urlsplit pf u = Inr r \<and> netloc r = ''''))"
proof (intro conjI allI impI; (elim conjE)?)
  fix e
  assume "urlsplit pf (public_url p) = Inl e"
  then show "start pf p w = (Inl e, w)"
    by (simp add: start_def)
next
  fix pu e
  assume "urlsplit pf (public_url p) = Inr pu" and "urlsplit pf (api_url p) = Inl e"
  then show "start pf p w = (Inl e, w)"
    by (simp add: start_def)
next
  show "level_name (log_level p) \<in> set [''error'', ''warn'', ''info'', ''debug'']"
    by (cases "log_level p") simp_all
next
  fix s a rest
  assume h: "s \<noteq> []" "ascii_letter (hd s)" "set s \<subseteq> set scheme_chars"
    "set a \<inter> set ''/?#'' = {}" "\<forall>c \<in> set a. \<not> unsafe_url_byte c"
    "rest = [] \<or> hd rest \<in> set ''/?#''"
    "CHR ''['' \<in> set a \<longleftrightarrow> CHR '']'' \<in> set a"
    "CHR ''['' \<in> set a \<longrightarrow> check_bracketed_host pf (bracketed_host a) = None"
    "a = [] \<or> isascii a \<or> checknetloc pf a = None"
  from urlsplit_netloc[OF h] obtain r
    where r: "urlsplit pf (s @ ''://'' @ a @ rest) = Inr r \<and> netloc r = a
                \<and> scheme r = map lower s"
    ..
  then have "urlsplit pf (s @ ''://'' @ a @ rest) = Inr r \<and> netloc r = a" by simp
  then show "\<exists>r. urlsplit pf (s @ ''://'' @ a @ rest) = Inr r \<and> netloc r = a" ..
next
  fix u :: string
  assume "CHR ''/'' \<notin> set u"
  then show "\<exists>r. urlsplit pf u = Inr r \<and> netloc r = ''''"
    by (rule urlsplit_no_slash)
next
  fix pu au call
  assume u1: "urlsplit pf (public_url p) = Inr pu" and u2: "urlsplit pf (api_url p) = Inr au"
    and c: "call = \<lparr>args = [proxy_exe pf, ''-address'', netloc pu, ''-api-address'', netloc au,
                            ''-log-level'', level_name (log_level p), ''-is-child-process''],
                    env = (environ w)(''CONFIG_TLS_PROXY_TOKEN'' \<mapsto> auth_token p),
                    stdin = PIPE, stdout = Inherit, stderr = Inherit,
                    start_new_session = True\<rparr>"
  obtain res r' where po: "popen pf call (remote w) = (res, r')"
    by (cases "popen pf call (remote w)")
  have st: "start pf p w =
              (case res of Inl e \<Rightarrow> Inl e | Inr proc \<Rightarrow> Inr (p\<lparr>proxy_process := Some proc\<rparr>),
               emit (Spawned call)
                 ((emit (Logged LogInfo ''Starting the Dask Gateway Proxy...'') w)\<lparr>remote := r'\<rparr>))"
    using po unfolding start_def u1 u2 c
    by (simp add: Let_def emit_def split: sum.splits)
  show "events (snd (start pf p w))
          = events w @ [Logged LogInfo ''Starting the Dask Gateway Proxy...'', Spawned call]"
    unfolding st by (simp add: emit_def)
  show "wire (events (snd (start pf p w))) = wire (events w)"
    unfolding st by (simp add: emit_def wire_append)
  show "remote (snd (start pf p w)) = snd (popen pf call (remote w))"
    unfolding st using po by (simp add: emit_def)
  show "environ (snd (start pf p w)) = environ w"
    unfolding st by (simp add: emit_def)
  show "fst (start pf p w)
          = (case fst (popen pf call (remote w)) of
               Inl e \<Rightarrow> Inl e
             | Inr proc \<Rightarrow> Inr (p\<lparr>proxy_process := Some proc\<rparr>))"
    unfolding st using po by simp
qed

theorem start_launches_engine_witness:
  "urlsplit (engine_platform ''configurable-tls-proxy'') (public_url demo_proxy)
     = Inr \<lparr>scheme = ''tls'', netloc = ''0.0.0.0:8080'', path = '''', query = '''',
            fragment = ''''\<rparr>
   \<and> urlsplit (engine_platform ''configurable-tls-proxy'') (api_url demo_proxy)
     = Inr \<lparr>scheme = ''http'', netloc = ''127.0.0.1:9999'', path = '''', query = '''',
            fragment = ''''\<rparr>
   \<and> events (snd (start (engine_platform ''configurable-tls-proxy'') demo_proxy idle_world))
       = [Logged LogInfo ''Starting the Dask Gateway Proxy...'',
          Spawned \<lparr>args = [''configurable-tls-proxy'', ''-address'', ''0.0.0.0:8080'',
                            ''-api-address'', ''127.0.0.1:9999'', ''-log-level'', ''warn'',
                            ''-is-child-process''],
                    env = [''CONFIG_TLS_PROXY_TOKEN'' \<mapsto> ''s3cret''],
                    stdin = PIPE, stdout = Inherit, stderr = Inherit,
                    start_new_session = True\<rparr>]
   \<and> fst (start (engine_platform ''configurable-tls-proxy'') demo_proxy idle_world)
       = Inr (demo_proxy\<lparr>proxy_process := Some 1\<rparr>)
   \<and> remote (snd (start (engine_platform ''configurable-tls-proxy'') demo_proxy idle_world))
       = Some demo_engine
   \<and> urlsplit (engine_platform ''configurable-tls-proxy'')
         (public_url (demo_proxy\<lparr>public_url := ''tls://[::1:8080''\<rparr>))
       = Inl (ValueError ''Invalid IPv6 URL'')
   \<and> start (engine_platform ''configurable-tls-proxy'')
         (demo_proxy\<lparr>public_url := ''tls://[::1:8080''\<rparr>) idle_world
       = (Inl (ValueError ''Invalid IPv6 URL''), idle_world)"
proof -
  let ?pf = "engine_platform ''configurable-tls-proxy''"
  let ?bad = "demo_proxy\<lparr>public_url := ''tls://[::1:8080''\<rparr>"
  have u1: "urlsplit ?pf (public_url demo_proxy)
              = Inr \<lparr>scheme = ''tls'', netloc = ''0.0.0.0:8080'', path = '''', query = '''',
                     fragment = ''''\<rparr>"
    and u2: "urlsplit ?pf (api_url demo_proxy)
              = Inr \<lparr>scheme = ''http'', netloc = ''127.0.0.1:9999'', path = '''', query = '''',
                     fragment = ''''\<rparr>"
    by (simp_all add: demo_proxy_def urlsplit_demo)
  have u3: "urlsplit ?pf (public_url ?bad) = Inl (ValueError ''Invalid IPv6 URL'')"
    by (simp add: urlsplit_def split_scheme_def splitnetloc_def split_once_def
          scheme_chars_def lower_def c0_control_or_space_def unsafe_url_byte_def
          ascii_letter_def Let_def)
  note L = start_launches_engine[of ?pf demo_proxy idle_world, THEN conjunct2, THEN conjunct2,
      THEN conjunct1, rule_format, OF conjI[OF u1 conjI[OF u2 refl]]]
  note B = start_launches_engine[of ?pf ?bad idle_world, THEN conjunct1, rule_format, OF u3]
  have ev: "events idle_world = []" "environ idle_world = Map.empty" "remote idle_world = None"
    by (simp_all add: idle_world_def)
  have cfg: "proxy_exe ?pf = ''configurable-tls-proxy''" "auth_token demo_proxy = ''s3cret''"
    "level_name (log_level demo_proxy) = ''warn''"
    by (simp_all add: engine_platform_def demo_proxy_def)
  have po: "popen ?pf
              \<lparr>args = [''configurable-tls-proxy'', ''-address'', ''0.0.0.0:8080'',
                        ''-api-address'', ''127.0.0.1:9999'', ''-log-level'', ''warn'',
                        ''-is-child-process''],
                env = [''CONFIG_TLS_PROXY_TOKEN'' \<mapsto> ''s3cret''],
                stdin = PIPE, stdout = Inherit, stderr = Inherit,
                start_new_session = True\<rparr> None
            = (Inr 1, Some demo_engine)"
    by (simp add: engine_platform_def engine_popen_def demo_engine_def)
  show ?thesis
    using u1 u2 u3 B L[unfolded ev cfg SplitResult.simps append_Nil po]
    by simp
qed

text \<open>
  The claim as written fails at the addresses of the specification's own end-to-end
  scenario, a bare host and port for each: \<^verbatim>\<open>urlparse\<close> finds no network location in an
  address without \<^verbatim>\<open>//\<close>, and the engine is launched with an empty \<^verbatim>\<open>-address\<close> and an
  empty \<^verbatim>\<open>-api-address\<close>, not with the public and the private host and port.
\<close>

theorem start_bare_address_counterexample:
  "public_url bare_proxy = ''0.0.0.0:8080''
   \<and> api_url bare_proxy = ''127.0.0.1:9999''
   \<and> spawned (events (snd (start (engine_platform ''configurable-tls-proxy'') bare_proxy
                                idle_world)))
     = [\<lparr>args = [''configurable-tls-proxy'', ''-address'', '''', ''-api-address'', '''',
                 ''-log-level'', ''warn'', ''-is-child-process''],
         env = [''CONFIG_TLS_PROXY_TOKEN'' \<mapsto> ''s3cret''],
         stdin = PIPE, stdout = Inherit, stderr = Inherit,
         start_new_session = True\<rparr>]"
  by (simp add: start_def bare_proxy_def urlsplit_bare engine_platform_def engine_popen_def
        idle_world_def emit_def Let_def)

subsection \<open>One token on both sides\<close>

text \<open>
  C5. When \<^verbatim>\<open>start\<close> completes, the child it launched has \<^verbatim>\<open>CONFIG_TLS_PROXY_TOKEN\<close> set
  to the proxy's token, the proxy that \<^verbatim>\<open>start\<close> leaves behind has the same token, and
  each of \<^verbatim>\<open>add_route\<close>, \<^verbatim>\<open>delete_route\<close> and \<^verbatim>\<open>get_all_routes\<close> on that proxy, in any
  later world, sends exactly one request, whose only header is \<^verbatim>\<open>Authorization\<close> with the
  value \<^verbatim>\<open>token\<close>, a space and that same token. No method writes the token.
\<close>

theorem token_is_shared:
  assumes "start pf p w = (Inr p', w')"
  shows "auth_token p' = auth_token p
         \<and> (\<exists>call. spawned (events w') = spawned (events w) @ [call]
                    \<and> env call ''CONFIG_TLS_PROXY_TOKEN'' = Some (auth_token p'))
         \<and> (\<exists>req. sent (events (snd (add_route pf p' route target v))) = sent (events v) @ [req]
                   \<and> headers req = [(''Authorization'', ''token '' @ auth_token p')])
         \<and> (\<exists>req. sent (events (snd (delete_route pf p' route v))) = sent (events v) @ [req]
                   \<and> headers req = [(''Authorization'', ''token '' @ auth_token p')])
         \<and> (\<exists>req. sent (events (snd (get_all_routes pf p' v))) = sent (events v) @ [req]
                   \<and> headers req = [(''Authorization'', ''token '' @ auth_token p')])"
proof -
  have tok: "auth_token p' = auth_token p"
    using assms
    by (auto simp: start_def Let_def split_def split: sum.splits)
  have sp: "\<exists>call. spawned (events w') = spawned (events w) @ [call]
                    \<and> env call ''CONFIG_TLS_PROXY_TOKEN'' = Some (auth_token p)"
    using assms
    by (auto simp: start_def Let_def split_def emit_def spawned_append split: sum.splits)
  have ops:
    "\<exists>req. sent (events (snd (add_route pf p' route target v))) = sent (events v) @ [req]
                   \<and> headers req = [(''Authorization'', ''token '' @ auth_token p')]"
    "\<exists>req. sent (events (snd (delete_route pf p' route v))) = sent (events v) @ [req]
                   \<and> headers req = [(''Authorization'', ''token '' @ auth_token p')]"
    "\<exists>req. sent (events (snd (get_all_routes pf p' v))) = sent (events v) @ [req]
                   \<and> headers req = [(''Authorization'', ''token '' @ auth_token p')]"
    by (simp_all add: add_route_unfold delete_route_unfold get_all_routes_unfold Let_def
          sent_fetch events_emit sent_append)
  show ?thesis using tok sp ops by simp
qed

theorem token_is_shared_witness:
  "fst (start (engine_platform ''configurable-tls-proxy'') demo_proxy idle_world)
     = Inr (demo_proxy\<lparr>proxy_process := Some 1\<rparr>)
   \<and> auth_token (demo_proxy\<lparr>proxy_process := Some 1\<rparr>) = ''s3cret''
   \<and> (\<exists>call. spawned (events (snd (start (engine_platform ''configurable-tls-proxy'')
                                          demo_proxy idle_world))) = [call]
              \<and> env call ''CONFIG_TLS_PROXY_TOKEN'' = Some ''s3cret'')
   \<and> (\<exists>req. sent (events (snd (add_route (engine_platform ''configurable-tls-proxy'')
                               (demo_proxy\<lparr>proxy_process := Some 1\<rparr>) ''scheduler-1''
                               ''10.1.2.3:8786'' running_world))) = [req]
             \<and> headers req = [(''Authorization'', ''token s3cret'')])"
proof -
  have h: "start (engine_platform ''configurable-tls-proxy'') demo_proxy idle_world
             = (Inr (demo_proxy\<lparr>proxy_process := Some 1\<rparr>),
                snd (start (engine_platform ''configurable-tls-proxy'') demo_proxy idle_world))"
    by (simp add: prod_eq_iff start_def urlsplit_demo wire_defs engine_popen_def)
  have f: "fst (start (engine_platform ''configurable-tls-proxy'') demo_proxy idle_world)
             = Inr (demo_proxy\<lparr>proxy_process := Some 1\<rparr>)"
    by (subst h) (rule fst_conv)
  have t: "auth_token (demo_proxy\<lparr>proxy_process := Some 1\<rparr>) = ''s3cret''"
    and e: "spawned (events idle_world) = []" "sent (events running_world) = []"
    by (simp_all add: demo_proxy_def idle_world_def running_world_def)
  note T = token_is_shared[OF h, of "''scheduler-1''" "''10.1.2.3:8786''" running_world,
      unfolded t e append_Nil]
  show ?thesis
    using f t T[THEN conjunct2] by simp
qed

subsection \<open>Overwriting a route\<close>

text \<open>
  C6 (as amended). For a route of unreserved characters only, against the engine of the
  specification running with the proxy's token on the proxy's API address: adding the
  route with one target and then with a second target succeeds both times, and
  \<^verbatim>\<open>get_all_routes\<close> then returns the engine's table with the route mapped to the second
  target, whether or not the route was in the table before; on a table that was empty
  the result is the object with that one member.
\<close>

theorem second_add_overwrites:
  assumes "s \<noteq> []" and "set s \<subseteq> set scheme_chars"
    and "api_url p = s @ ''://'' @ api_address e"
    and "set (api_address e) \<inter> set ''/?#[]'' = {}"
    and "secret e = auth_token p"
    and "remote w = Some e"
    and "set route \<subseteq> set unreserved"
    and "w1 = snd (add_route (engine_platform exe) p route ta w)"
    and "w2 = snd (add_route (engine_platform exe) p route tb w1)"
  shows "fst (add_route (engine_platform exe) p route ta w) = Inr ()
         \<and> fst (add_route (engine_platform exe) p route tb w1) = Inr ()
         \<and> fst (get_all_routes (engine_platform exe) p w2)
             = Inr (table_json (AList.update route tb (table e)))
         \<and> (table e = [] \<longrightarrow>
               fst (get_all_routes (engine_platform exe) p w2) = Inr (JObj [(route, JStr tb)]))"
proof -
  let ?e1 = "e\<lparr>table := AList.update route ta (table e)\<rparr>"
  let ?e2 = "?e1\<lparr>table := AList.update route tb (table ?e1)\<rparr>"
  have a1: "fst (add_route (engine_platform exe) p route ta w) = Inr ()"
    and r1: "remote w1 = Some ?e1"
    unfolding assms(8) by (rule add_route_engine[OF assms(1-7)])+
  have c1: "api_url p = s @ ''://'' @ api_address ?e1"
    "set (api_address ?e1) \<inter> set ''/?#[]'' = {}" "secret ?e1 = auth_token p"
    using assms(3,4,5) by simp_all
  have a2: "fst (add_route (engine_platform exe) p route tb w1) = Inr ()"
    and r2: "remote w2 = Some ?e2"
    unfolding assms(9) by (rule add_route_engine[OF assms(1,2) c1 r1 assms(7)])+
  have c2: "api_url p = s @ ''://'' @ api_address ?e2"
    "set (api_address ?e2) \<inter> set ''/?#[]'' = {}" "secret ?e2 = auth_token p"
    using assms(3,4,5) by simp_all
  have g: "fst (get_all_routes (engine_platform exe) p w2)
             = Inr (table_json (AList.update route tb (table e)))"
    using get_all_routes_engine[OF assms(1,2) c2 r2, of exe] by simp
  show ?thesis using a1 a2 g by (simp add: table_json_def)
qed

theorem second_add_overwrites_witness:
  "api_url demo_proxy = ''http'' @ ''://'' @ api_address demo_engine
   \<and> secret demo_engine = auth_token demo_proxy
   \<and> remote running_world = Some demo_engine
   \<and> set ''scheduler-1'' \<subseteq> set unreserved
   \<and> table demo_engine = []
   \<and> fst (get_all_routes (engine_platform ''configurable-tls-proxy'') demo_proxy
            (snd (add_route (engine_platform ''configurable-tls-proxy'') demo_proxy
                    ''scheduler-1'' ''10.1.2.4:8786''
               (snd (add_route (engine_platform ''configurable-tls-proxy'') demo_proxy
                       ''scheduler-1'' ''10.1.2.3:8786'' running_world)))))
       = Inr (JObj [(''scheduler-1'', JStr ''10.1.2.4:8786'')])"
proof -
  note T = second_add_overwrites[OF demo_link refl refl,
      where exe = "''configurable-tls-proxy''" and ta = "''10.1.2.3:8786''"
        and tb = "''10.1.2.4:8786''"]
  have e: "table demo_engine = []" by (simp add: demo_engine_def)
  show ?thesis
    using demo_link(3,5,6,7) e T[THEN conjunct2, THEN conjunct2, THEN conjunct2] by simp
qed

text \<open>
  The claim as written, for every route, fails at a route that holds a percent escape:
  the route goes into the address as it is, the engine reads the segment as
  percent-encoded, and the table comes back with the key \<^verbatim>\<open>a b\<close>, not the key that was
  added. Likewise a route with a question mark comes back cut at the question mark.
\<close>

theorem upsert_decoded_key_counterexample:
  "fst (get_all_routes (engine_platform ''configurable-tls-proxy'') demo_proxy
         (snd (add_route (engine_platform ''configurable-tls-proxy'') demo_proxy
                 ''a%20b'' ''10.0.0.2:9000''
            (snd (add_route (engine_platform ''configurable-tls-proxy'') demo_proxy
                    ''a%20b'' ''10.0.0.1:9000'' running_world)))))
     = Inr (JObj [(''a b'', JStr ''10.0.0.2:9000'')])
   \<and> JObj [(''a b'', JStr ''10.0.0.2:9000'')] \<noteq> JObj [(''a%20b'', JStr ''10.0.0.2:9000'')]
   \<and> fst (get_all_routes (engine_platform ''configurable-tls-proxy'') demo_proxy
         (snd (add_route (engine_platform ''configurable-tls-proxy'') demo_proxy
                 ''a?b'' ''10.0.0.2:9000''
            (snd (add_route (engine_platform ''configurable-tls-proxy'') demo_proxy
                    ''a?b'' ''10.0.0.1:9000'' running_world)))))
     = Inr (JObj [(''a'', JStr ''10.0.0.2:9000'')])"
  by (simp add: op_defs wire_defs char_of_def bit_Suc_0_iff loads_table_json)
     (simp add: table_json_def)

subsection \<open>Failures reach the caller\<close>




subsection \<open>Reading the whole table\<close>

text \<open>
  C8 (as amended). \<^verbatim>\<open>get_all_routes\<close> hands one request to the HTTP client, a GET of
  \<^verbatim>\<open>api_url\<close> followed by \<^verbatim>\<open>/api/routes/\<close>, with no body, and does nothing else. The
  client follows redirects, so the requests on the wire are that one and the follow-ups,
  at most five; there is exactly one request on the wire when the first answer is a
  connection failure or a response that is no redirect. When the answer at which the
  exchange ends is a successful response whose body decodes to a JSON document, the
  result is that document, whole, as \<^verbatim>\<open>json.loads\<close> reads it: the mapping from route to
  target that the one response carries, unchanged when no key is repeated (of a repeated
  key the last value is kept). There is no pagination.
\<close>

theorem get_all_routes_single_fetch:
  assumes "req = \<lparr>url = api_url p @ ''/api/routes/'', http_method = GET,
                  headers = [(''Authorization'', ''token '' @ auth_token p)],
                  body = None\<rparr>"
    and "x = transfer max_redirects pf req (remote w)"
  shows "events (snd (get_all_routes pf p w))
           = events w @ Sent req # map Followed (fst (snd x))
         \<and> sent (events (snd (get_all_routes pf p w))) = sent (events w) @ [req]
         \<and> wire (events (snd (get_all_routes pf p w))) = wire (events w) @ req # fst (snd x)
         \<and> length (fst (snd x)) \<le> 5
         \<and> remote (snd (get_all_routes pf p w)) = snd (snd x)
         \<and> ((\<exists>resp. fst (serve pf req (remote w)) = Inr resp \<and> redirection resp)
              \<or> x = (fst (serve pf req (remote w)), [], snd (serve pf req (remote w))))
         \<and> (\<forall>resp j. fst x = Inr resp \<and> 200 \<le> code resp \<and> code resp < 300
                      \<and> decode_utf8_replace (response_body resp) = JsonText j
               \<longrightarrow> fst (get_all_routes pf p w) = Inr (loads_tree j))
         \<and> (\<forall>kvs. distinct (map fst kvs)
               \<longrightarrow> loads_tree (JObj (map (\<lambda>(k, v). (k, JStr v)) kvs))
                     = JObj (map (\<lambda>(k, v). (k, JStr v)) kvs))"
proof -
  have c1: "events (snd (get_all_routes pf p w))
           = events w @ Sent req # map Followed (fst (snd x))"
    unfolding get_all_routes_unfold Let_def snd_conv fetch_events assms ..
  have c2: "sent (events (snd (get_all_routes pf p w))) = sent (events w) @ [req]"
    unfolding c1 by (simp add: sent_append sent_Followed)
  have c3: "wire (events (snd (get_all_routes pf p w))) = wire (events w) @ req # fst (snd x)"
    unfolding c1 by (simp add: wire_append wire_Followed)
  have c4: "length (fst (snd x)) \<le> 5"
    unfolding assms(2) using length_transfer[of max_redirects pf req "remote w"]
    by (simp add: max_redirects_def)
  have c5: "remote (snd (get_all_routes pf p w)) = snd (snd x)"
    unfolding get_all_routes_unfold Let_def snd_conv fetch_remote assms ..
  have c6: "(\<exists>resp. fst (serve pf req (remote w)) = Inr resp \<and> redirection resp)
              \<or> x = (fst (serve pf req (remote w)), [], snd (serve pf req (remote w)))"
    unfolding assms(2) transfer_max
    by (cases "fst (serve pf req (remote w))") simp_all
  have c7: "\<forall>resp j. fst x = Inr resp \<and> 200 \<le> code resp \<and> code resp < 300
                      \<and> decode_utf8_replace (response_body resp) = JsonText j
               \<longrightarrow> fst (get_all_routes pf p w) = Inr (loads_tree j)"
    unfolding get_all_routes_unfold Let_def fst_conv fetch_result assms
    by (simp add: settle_def)
  have c8: "\<forall>kvs. distinct (map fst kvs)
               \<longrightarrow> loads_tree (JObj (map (\<lambda>(k, v). (k, JStr v)) kvs))
                     = JObj (map (\<lambda>(k, v). (k, JStr v)) kvs)"
  proof (intro allI impI)
    fix kvs :: "(string \<times> string) list"
    let ?f = "\<lambda>(k, v). (k, JStr v)"
    assume d: "distinct (map fst kvs)"
    have m: "map (map_prod id loads_tree) (map ?f kvs) = map ?f kvs"
      by (induction kvs) auto
    have k: "map fst (map ?f kvs) = map fst kvs"
      by (induction kvs) auto
    have "last_wins (map ?f kvs) = map ?f kvs"
      by (rule last_wins_distinct) (simp only: k d)
    then show "loads_tree (JObj (map ?f kvs)) = JObj (map ?f kvs)"
      by (simp only: loads_tree.simps m)
  qed
  show ?thesis
    by (intro conjI) (rule c1 c2 c3 c4 c5 c6 c7 c8)+
qed

theorem get_all_routes_single_fetch_witness:
  "transfer max_redirects
      (answering \<lparr>code = 200, response_headers = [],
                  response_body = Utf8 (JsonText (JObj [(''scheduler-1'', JStr ''10.1.2.3:8786''),
                                                        (''scheduler-2'', JStr ''10.1.2.4:8786'')]))\<rparr>)
      \<lparr>url = api_url demo_proxy @ ''/api/routes/'', http_method = GET,
       headers = [(''Authorization'', ''token '' @ auth_token demo_proxy)], body = None\<rparr>
      (remote blank_world)
     = (Inr \<lparr>code = 200, response_headers = [],
             response_body = Utf8 (JsonText (JObj [(''scheduler-1'', JStr ''10.1.2.3:8786''),
                                                   (''scheduler-2'', JStr ''10.1.2.4:8786'')]))\<rparr>,
        [], ())
   \<and> fst (get_all_routes
            (answering \<lparr>code = 200, response_headers = [],
                        response_body = Utf8 (JsonText (JObj [(''scheduler-1'', JStr ''10.1.2.3:8786''),
                                                              (''scheduler-2'', JStr ''10.1.2.4:8786'')]))\<rparr>)
            demo_proxy blank_world)
     = Inr (JObj [(''scheduler-1'', JStr ''10.1.2.3:8786''),
                  (''scheduler-2'', JStr ''10.1.2.4:8786'')])
   \<and> wire (events (snd (get_all_routes
            (answering \<lparr>code = 200, response_headers = [],
                        response_body = Utf8 (JsonText (JObj [(''scheduler-1'', JStr ''10.1.2.3:8786''),
                                                              (''scheduler-2'', JStr ''10.1.2.4:8786'')]))\<rparr>)
            demo_proxy blank_world)))
     = [\<lparr>url = ''http://127.0.0.1:9999/api/routes/'', http_method = GET,
         headers = [(''Authorization'', ''token s3cret'')], body = None\<rparr>]"
proof -
  let ?j = "JObj [(''scheduler-1'', JStr ''10.1.2.3:8786''),
                  (''scheduler-2'', JStr ''10.1.2.4:8786'')]"
  let ?resp = "\<lparr>code = 200, response_headers = [], response_body = Utf8 (JsonText ?j)\<rparr>"
  let ?req = "\<lparr>url = api_url demo_proxy @ ''/api/routes/'', http_method = GET,
                headers = [(''Authorization'', ''token '' @ auth_token demo_proxy)],
                body = None\<rparr>"
  note T = get_all_routes_single_fetch[OF refl refl, where pf = "answering ?resp"
      and p = demo_proxy and w = blank_world]
  have x: "transfer max_redirects (answering ?resp) ?req (remote blank_world)
             = (Inr ?resp, [], ())"
    by (simp add: transfer_max redirection_def answering_def answering_serve_def)
  have d: "distinct (map fst [(''scheduler-1'', ''10.1.2.3:8786''),
                              (''scheduler-2'', ''10.1.2.4:8786'')])"
    by simp
  have l: "loads_tree ?j = ?j"
    using T[THEN conjunct2, THEN conjunct2, THEN conjunct2, THEN conjunct2, THEN conjunct2,
        THEN conjunct2, THEN conjunct2, rule_format, OF d]
    by simp
  have r: "fst (get_all_routes (answering ?resp) demo_proxy blank_world) = Inr (loads_tree ?j)"
    using T[THEN conjunct2, THEN conjunct2, THEN conjunct2, THEN conjunct2, THEN conjunct2,
        THEN conjunct2, THEN conjunct1, rule_format, of ?resp ?j]
    unfolding x by simp
  have w: "wire (events (snd (get_all_routes (answering ?resp) demo_proxy blank_world)))
             = [\<lparr>url = ''http://127.0.0.1:9999/api/routes/'', http_method = GET,
                 headers = [(''Authorization'', ''token s3cret'')], body = None\<rparr>]"
    using T[THEN conjunct2, THEN conjunct2, THEN conjunct1]
    unfolding x by (simp add: blank_world_def demo_proxy_def)
  show ?thesis
    using x r[unfolded l] w by simp
qed

text \<open>
  The claim as written fails against a server that answers the GET with a redirect: two
  GET requests go out, one to the engine's endpoint and one to the address in
  \<^verbatim>\<open>Location\<close>, and the table that is returned is the one in the second response.
\<close>

theorem get_all_routes_redirect_counterexample:
  "wire (events (snd (get_all_routes scripted demo_proxy
           (script [Inr (moved 307 ''http://127.0.0.1:9998/api/routes/''),
                    Inr \<lparr>code = 200, response_headers = [],
                         response_body = Utf8 (JsonText (JObj [(''scheduler-1'',
                                                                JStr ''10.1.2.3:8786'')]))\<rparr>]))))
     = [\<lparr>url = ''http://127.0.0.1:9999/api/routes/'', http_method = GET,
         headers = [(''Authorization'', ''token s3cret'')], body = None\<rparr>,
        \<lparr>url = ''http://127.0.0.1:9998/api/routes/'', http_method = GET,
         headers = [(''Authorization'', ''token s3cret'')], body = None\<rparr>]
   \<and> fst (get_all_routes scripted demo_proxy
           (script [Inr (moved 307 ''http://127.0.0.1:9998/api/routes/''),
                    Inr \<lparr>code = 200, response_headers = [],
                         response_body = Utf8 (JsonText (JObj [(''scheduler-1'',
                                                                JStr ''10.1.2.3:8786'')]))\<rparr>]))
     = Inr (JObj [(''scheduler-1'', JStr ''10.1.2.3:8786'')])"
  by (simp add: get_all_routes_unfold fetch_result wire_fetch
        transfer_max transfer_numeral redirection_def settle_def scripted_def script_def
        moved_def follow_location_def demo_proxy_def Let_def last_wins_def)

subsection \<open>Stopping a proxy that was never started\<close>

text \<open>
  C9. \<^verbatim>\<open>stop\<close> on a proxy whose \<^verbatim>\<open>start\<close> has never completed, so that the attribute
  \<^verbatim>\<open>proxy_process\<close> does not exist, raises \<^verbatim>\<open>AttributeError\<close> and does nothing else: no
  signal is sent and the world is unchanged. It is an error, not a silent no-op.
\<close>

theorem stop_before_start_raises:
  assumes "proxy_process p = None"
  shows "stop pf p w = (Inl (AttributeError ''proxy_process''), w)"
  using assms by (simp add: stop_def)

theorem stop_before_start_raises_witness:
  "proxy_process demo_proxy = None
   \<and> stop (engine_platform ''configurable-tls-proxy'') demo_proxy idle_world
       = (Inl (AttributeError ''proxy_process''), idle_world)"
  using stop_before_start_raises[of demo_proxy "engine_platform ''configurable-tls-proxy''" idle_world]
  by (simp add: demo_proxy_def)

subsection \<open>An empty token in the environment\<close>

text \<open>
  C10. When \<^verbatim>\<open>CONFIG_TLS_PROXY_TOKEN\<close> is set to the empty string, token resolution
  behaves as when the variable is not set: it logs that a token is generated and returns
  the generated token, not the empty string. Whatever the environment, the resolved
  token is not empty.
\<close>

theorem empty_token_counts_as_unset:
  "(environ w ''CONFIG_TLS_PROXY_TOKEN'' = Some '''' \<longrightarrow>
      fst (auth_token_default r w) = uuid4_hex r
      \<and> fst (auth_token_default r w)
          = fst (auth_token_default r (w\<lparr>environ := (environ w)(''CONFIG_TLS_PROXY_TOKEN'' := None)\<rparr>))
      \<and> events (snd (auth_token_default r w))
          = events w @ [Logged LogInfo ''Generating new CONFIG_TLS_PROXY_TOKEN''])
   \<and> fst (auth_token_default r w) \<noteq> ''''"
  by (auto simp: auth_token_default_def emit_def uuid4_hex_nonempty split: option.splits)

theorem empty_token_counts_as_unset_witness:
  "environ (idle_world\<lparr>environ := [''CONFIG_TLS_PROXY_TOKEN'' \<mapsto> '''']\<rparr>) ''CONFIG_TLS_PROXY_TOKEN''
     = Some ''''
   \<and> fst (auth_token_default 0 (idle_world\<lparr>environ := [''CONFIG_TLS_PROXY_TOKEN'' \<mapsto> '''']\<rparr>))
     = uuid4_hex 0
   \<and> fst (auth_token_default 0 (idle_world\<lparr>environ := [''CONFIG_TLS_PROXY_TOKEN'' \<mapsto> '''']\<rparr>))
     \<noteq> ''''"
  using empty_token_counts_as_unset[of "idle_world\<lparr>environ := [''CONFIG_TLS_PROXY_TOKEN'' \<mapsto> '''']\<rparr>" 0]
  by auto

end
